theory Spec2Isabelle
  imports Main "HOL-Library.Sublist"
begin

section \<open>Three-way merge of keybinding documents\<close>

text \<open>
  A shallow embedding of the keybindings merge module (\<^verbatim>\<open>src/unnamed/part_003\<close>):
  \<^verbatim>\<open>merge\<close>, \<^verbatim>\<open>computeMergeResult\<close>, \<^verbatim>\<open>computeMergeResultByKeybinding\<close>,
  \<^verbatim>\<open>byKeybinding\<close>, \<^verbatim>\<open>byCommand\<close>, \<^verbatim>\<open>compareByKeybinding\<close>, \<^verbatim>\<open>compareByCommand\<close>,
  \<^verbatim>\<open>areSameKeybindingsWithSameCommand\<close>, \<^verbatim>\<open>isSameKeybinding\<close>, \<^verbatim>\<open>addKeybindings\<close>,
  \<^verbatim>\<open>removeKeybindings\<close> and \<^verbatim>\<open>updateKeybindings\<close>.

  The module imports helpers that are defined in other files: the JSON parser
  (\<^verbatim>\<open>parse\<close>), the positional editor (\<^verbatim>\<open>contentUtil.edit\<close>, \<^verbatim>\<open>contentUtil.getEol\<close>), the
  guard-expression parser and comparator (\<^verbatim>\<open>ContextKeyExpr.deserialize\<close>, \<^verbatim>\<open>equals\<close>), deep
  equality of values (\<^verbatim>\<open>objects.equals\<close>), and small array and map utilities. The first
  three groups are parameters of the model (the record \<open>ext\<close> below); the utilities are
  written out.
\<close>

subsection \<open>Data model\<close>

text \<open>
  \<^verbatim>\<open>IUserFriendlyKeybinding { key: string; command: string; args?: any; when?: string }\<close>.
  The key field is a type parameter: a parsed record has a \<open>string\<close> key, and the
  comparisons rewrite it to \<^verbatim>\<open>normalizedKeys[keybinding.key]\<close>, which is \<^verbatim>\<open>undefined\<close>
  (here \<open>None\<close>) for a key the table does not cover. The type \<open>'a\<close> stands for the
  values of \<^verbatim>\<open>args\<close> (any JSON value, or \<^verbatim>\<open>undefined\<close>).
\<close>

record ('k, 'a) keybinding =
  key :: 'k
  command :: string
  when' :: "string option"
  args :: 'a

text \<open>\<^verbatim>\<open>{ ...keybinding, ...{ key } }\<close>: a copy of the record with the key replaced.\<close>

definition withKey :: "'j \<Rightarrow> ('k, 'a) keybinding \<Rightarrow> ('j, 'a) keybinding" where
  "withKey k kb = \<lparr>key = k, command = command kb, when' = when' kb, args = args kb\<rparr>"

text \<open>\<^verbatim>\<open>IStringDictionary<string>\<close>: the normalization table; a missing entry reads \<^verbatim>\<open>undefined\<close>.\<close>

type_synonym normalizedKeys = "string \<Rightarrow> string option"

text \<open>
  The collaborators defined outside this module. \<open>'e\<close> is the type of deserialized guard
  expressions (\<^verbatim>\<open>ContextKeyExpr\<close>); \<^verbatim>\<open>deserialize\<close> returns \<open>None\<close> where the source
  returns a falsy value. \<^verbatim>\<open>parse\<close> is the fault-tolerant JSON parser, whose result the
  source casts to a list of records. \<^verbatim>\<open>edit content eol path value\<close> is the positional
  editor: the path is \<^verbatim>\<open>[index]\<close>, and a value of \<open>None\<close> is \<^verbatim>\<open>undefined\<close>.
\<close>

record ('e, 'a) ext =
  parse :: "string \<Rightarrow> (string, 'a) keybinding list"
  edit :: "string \<Rightarrow> string \<Rightarrow> int list \<Rightarrow> (string, 'a) keybinding option \<Rightarrow> string"
  getEol :: "string \<Rightarrow> string"
  deserialize :: "string option \<Rightarrow> 'e option"
  exprEquals :: "'e \<Rightarrow> 'e \<Rightarrow> bool"
  objectsEquals :: "'a \<Rightarrow> 'a \<Rightarrow> bool"

text \<open>
  A JavaScript \<^verbatim>\<open>Set<string>\<close> iterates in insertion order, and the merge applies its
  edits in that order: a set is the list of its members in insertion order.
  \<^verbatim>\<open>set.add(x)\<close> is \<open>set_add x\<close>, \<^verbatim>\<open>set.has(x)\<close> is \<open>x \<in> set s\<close>, \<^verbatim>\<open>set.size === 0\<close> is
  \<open>s = []\<close>, and \<^verbatim>\<open>values(set)\<close> is the list itself.
\<close>

definition set_add :: "'a \<Rightarrow> 'a list \<Rightarrow> 'a list" where
  "set_add x s = (if x \<in> set s then s else s @ [x])"

text \<open>\<^verbatim>\<open>xs.reduce((r, k) => { r.add(k); return r; }, new Set<string>())\<close>\<close>

definition toSet :: "'a list \<Rightarrow> 'a list" where
  "toSet xs = foldl (\<lambda>r k. set_add k r) [] xs"

text \<open>
  A JavaScript \<^verbatim>\<open>Map<string, IUserFriendlyKeybinding[]>\<close> is an association list in insertion
  order. \<^verbatim>\<open>keys(map)\<close> lists the keys in that order, \<^verbatim>\<open>map.get(k)\<close> is \<open>map_of m k\<close>.
\<close>

type_synonym ('k, 'v) jsmap = "('k \<times> 'v list) list"

definition keys :: "('k, 'v) jsmap \<Rightarrow> 'k list" where
  "keys m = map fst m"

text \<open>
  \<^verbatim>\<open>map.get(k)!\<close>: the source asserts that the entry exists. Every use is on a key that
  the map holds (lemmas \<open>getBang_compare_from\<close>, \<open>getBang_compare_to\<close> and
  \<open>getBang_merge_loops\<close> below); a miss, where JavaScript would raise a TypeError at the
  next method call, reads as the empty list.
\<close>

definition getBang :: "('k, 'v) jsmap \<Rightarrow> 'k \<Rightarrow> 'v list" where
  "getBang m k = (case map_of m k of Some v \<Rightarrow> v | None \<Rightarrow> [])"

text \<open>
  The body of the grouping loops:
  \<^verbatim>\<open>let value = map.get(key); if (!value) { value = []; map.set(key, value); } value.push(keybinding);\<close>
  (an array is never falsy, so the test is on the key's presence).
\<close>

fun pushTo :: "'k \<Rightarrow> 'v \<Rightarrow> ('k, 'v) jsmap \<Rightarrow> ('k, 'v) jsmap" where
  "pushTo k v [] = [(k, [v])]"
| "pushTo k v ((k', vs) # m) =
     (if k = k' then (k', vs @ [v]) # m else (k', vs) # pushTo k v m)"

text \<open>\<^verbatim>\<open>ICompareResult\<close>\<close>

record 'k ICompareResult =
  added :: "'k list"
  removed :: "'k list"
  updated :: "'k list"

text \<open>The result of \<^verbatim>\<open>computeMergeResult\<close>: \<^verbatim>\<open>{ added, removed, updated, conflicts }\<close>.\<close>

record 'k MergeSets =
  ms_added :: "'k list"
  ms_removed :: "'k list"
  ms_updated :: "'k list"
  ms_conflicts :: "'k list"

text \<open>\<^verbatim>\<open>IMergeResult\<close>\<close>

record 'k IMergeResult =
  hasLocalForwarded :: bool
  hasRemoteForwarded :: bool
  mr_added :: "'k list"
  mr_removed :: "'k list"
  mr_updated :: "'k list"
  mr_conflicts :: "'k list"

text \<open>The value \<^verbatim>\<open>merge\<close> returns.\<close>

record MergeOutput =
  mergeContent :: string
  hasChanges :: bool
  hasConflicts :: bool

subsection \<open>Array utilities\<close>

text \<open>
  Modelled from the spec: \<^verbatim>\<open>equals\<close> of \<^verbatim>\<open>vs/base/common/arrays\<close> is not among the source
  files. The spec's list equality: two ordered record lists are equal iff they have the same
  length and are pairwise equal in order. (The arrays the module passes are always freshly
  built by \<^verbatim>\<open>map\<close> or \<^verbatim>\<open>filter\<close>, never \<^verbatim>\<open>undefined\<close>.)
\<close>

fun equals :: "'x list \<Rightarrow> 'x list \<Rightarrow> ('x \<Rightarrow> 'x \<Rightarrow> bool) \<Rightarrow> bool" where
  "equals [] [] itemEquals = True"
| "equals (a # one) (b # other) itemEquals = (itemEquals a b \<and> equals one other itemEquals)"
| "equals [] (b # other) itemEquals = False"
| "equals (a # one) [] itemEquals = False"

text \<open>
  Modelled from the spec: \<^verbatim>\<open>firstIndex\<close> of \<^verbatim>\<open>vs/base/common/arrays\<close> (imported as
  \<^verbatim>\<open>findFirstIndex\<close>) is not among the source files: the index of the first element that
  satisfies the predicate, \<open>-1\<close> when there is none.
\<close>

fun findFirstIndex :: "'x list \<Rightarrow> ('x \<Rightarrow> bool) \<Rightarrow> int" where
  "findFirstIndex [] p = -1"
| "findFirstIndex (x # xs) p =
     (if p x then 0 else (let i = findFirstIndex xs p in if i < 0 then -1 else i + 1))"

subsection \<open>Equality predicates\<close>

text \<open>\<^verbatim>\<open>isSameKeybinding\<close>, with the source's order of tests.\<close>

definition isSameKeybinding ::
  "('e, 'a) ext \<Rightarrow> ('k, 'a) keybinding \<Rightarrow> ('k, 'a) keybinding \<Rightarrow> bool" where
  "isSameKeybinding x a b =
     (if command a \<noteq> command b then False
      else if key a \<noteq> key b then False
      else
        (let whenA = deserialize x (when' a); whenB = deserialize x (when' b) in
         if (whenA \<noteq> None \<and> whenB = None) \<or> (whenA = None \<and> whenB \<noteq> None) then False
         else if (case (whenA, whenB) of
                    (Some ea, Some eb) \<Rightarrow> \<not> exprEquals x ea eb
                  | _ \<Rightarrow> False) then False
         else if \<not> objectsEquals x (args a) (args b) then False
         else True))"

text \<open>\<^verbatim>\<open>command[0] === '-'\<close>; on the empty string \<^verbatim>\<open>command[0]\<close> is \<^verbatim>\<open>undefined\<close>.\<close>

definition startsWithDash :: "string \<Rightarrow> bool" where
  "startsWithDash s = (case s of [] \<Rightarrow> False | c # _ \<Rightarrow> c = CHR ''-'')"

text \<open>\<^verbatim>\<open>areSameKeybindingsWithSameCommand\<close>\<close>

definition areSameKeybindingsWithSameCommand ::
  "('e, 'a) ext \<Rightarrow> ('k, 'a) keybinding list \<Rightarrow> ('k, 'a) keybinding list \<Rightarrow> bool" where
  "areSameKeybindingsWithSameCommand x value1 value2 =
     (if \<not> equals (filter (\<lambda>kb. \<not> startsWithDash (command kb)) value1)
                  (filter (\<lambda>kb. \<not> startsWithDash (command kb)) value2)
                  (\<lambda>a b. isSameKeybinding x a b) then False
      else if \<not> equals (filter (\<lambda>kb. startsWithDash (command kb)) value1)
                       (filter (\<lambda>kb. startsWithDash (command kb)) value2)
                       (\<lambda>a b. isSameKeybinding x a b) then False
      else True)"

subsection \<open>Grouping\<close>

text \<open>\<^verbatim>\<open>byKeybinding\<close>: grouped by \<^verbatim>\<open>keys[keybinding.key]\<close>.\<close>

definition byKeybinding ::
  "(string, 'a) keybinding list \<Rightarrow> normalizedKeys
     \<Rightarrow> (string option, (string, 'a) keybinding) jsmap" where
  "byKeybinding keybindings ks =
     foldl (\<lambda>m keybinding. pushTo (ks (key keybinding)) keybinding m) [] keybindings"

text \<open>
  The grouping key of \<^verbatim>\<open>byCommand\<close>:
  \<^verbatim>\<open>keybinding.command[0] === '-' ? keybinding.command.substring(1) : keybinding.command\<close>.
\<close>

definition commandOf :: "('k, 'a) keybinding \<Rightarrow> string" where
  "commandOf keybinding =
     (if startsWithDash (command keybinding) then tl (command keybinding)
      else command keybinding)"

definition byCommand ::
  "(string, 'a) keybinding list \<Rightarrow> (string, (string, 'a) keybinding) jsmap" where
  "byCommand keybindings =
     foldl (\<lambda>m keybinding. pushTo (commandOf keybinding) keybinding m) [] keybindings"

subsection \<open>Compare\<close>

text \<open>
  \<^verbatim>\<open>compareByKeybinding\<close>. The loop over \<^verbatim>\<open>fromKeys\<close> skips the removed keys and adds a
  key whose two record lists, each record's key rewritten to the grouping key, are not
  \<^verbatim>\<open>equals\<close> under \<^verbatim>\<open>isSameKeybinding\<close>.
\<close>

definition compareByKeybinding ::
  "('e, 'a) ext \<Rightarrow> ('k, ('j, 'a) keybinding) jsmap \<Rightarrow> ('k, ('j, 'a) keybinding) jsmap
     \<Rightarrow> 'k ICompareResult" where
  "compareByKeybinding x from to =
     (let fromKeys = keys from;
          toKeys = keys to;
          added = toSet (filter (\<lambda>key. key \<notin> set fromKeys) toKeys);
          removed = toSet (filter (\<lambda>key. key \<notin> set toKeys) fromKeys);
          updated =
            foldl (\<lambda>updated key.
                if key \<in> set removed then updated
                else
                  (let value1 = map (withKey key) (getBang from key);
                       value2 = map (withKey key) (getBang to key) in
                   if \<not> equals value1 value2 (\<lambda>a b. isSameKeybinding x a b)
                   then set_add key updated else updated))
              [] fromKeys
      in \<lparr>added = added, removed = removed, updated = updated\<rparr>)"

text \<open>
  \<^verbatim>\<open>compareByCommand\<close>: as above, with each record's key rewritten to
  \<^verbatim>\<open>normalizedKeys[keybinding.key]\<close> and the lists compared by
  \<^verbatim>\<open>areSameKeybindingsWithSameCommand\<close>.
\<close>

definition compareByCommand ::
  "('e, 'a) ext \<Rightarrow> ('k, (string, 'a) keybinding) jsmap \<Rightarrow> ('k, (string, 'a) keybinding) jsmap
     \<Rightarrow> normalizedKeys \<Rightarrow> 'k ICompareResult" where
  "compareByCommand x from to normalizedKeys =
     (let fromKeys = keys from;
          toKeys = keys to;
          added = toSet (filter (\<lambda>k. k \<notin> set fromKeys) toKeys);
          removed = toSet (filter (\<lambda>k. k \<notin> set toKeys) fromKeys);
          updated =
            foldl (\<lambda>updated k.
                if k \<in> set removed then updated
                else
                  (let value1 = map (\<lambda>kb. withKey (normalizedKeys (key kb)) kb) (getBang from k);
                       value2 = map (\<lambda>kb. withKey (normalizedKeys (key kb)) kb) (getBang to k) in
                   if \<not> areSameKeybindingsWithSameCommand x value1 value2
                   then set_add k updated else updated))
              [] fromKeys
      in \<lparr>added = added, removed = removed, updated = updated\<rparr>)"

subsection \<open>Merge resolution\<close>

text \<open>
  \<^verbatim>\<open>computeMergeResult\<close> runs six loops over the three comparisons, each reading and
  extending the four sets built so far. A loop is a \<open>fold\<close> of its body over the set it
  iterates; the bodies follow, in the source's order.
\<close>

text \<open>Removed keys in Local.\<close>

definition stepRemovedInLocal :: "'k ICompareResult \<Rightarrow> 'k \<Rightarrow> 'k MergeSets \<Rightarrow> 'k MergeSets" where
  "stepRemovedInLocal baseToRemote k st =
     (if k \<in> set (updated baseToRemote)
      then st\<lparr>ms_conflicts := set_add k (ms_conflicts st)\<rparr> else st)"

text \<open>Removed keys in Remote.\<close>

definition stepRemovedInRemote :: "'k ICompareResult \<Rightarrow> 'k \<Rightarrow> 'k MergeSets \<Rightarrow> 'k MergeSets" where
  "stepRemovedInRemote baseToLocal k st =
     (if k \<in> set (ms_conflicts st) then st
      else if k \<in> set (updated baseToLocal)
      then st\<lparr>ms_conflicts := set_add k (ms_conflicts st)\<rparr>
      else st\<lparr>ms_removed := set_add k (ms_removed st)\<rparr>)"

text \<open>Added keys in Local.\<close>

definition stepAddedInLocal ::
  "'k ICompareResult \<Rightarrow> 'k ICompareResult \<Rightarrow> 'k \<Rightarrow> 'k MergeSets \<Rightarrow> 'k MergeSets" where
  "stepAddedInLocal localToRemote baseToRemote k st =
     (if k \<in> set (ms_conflicts st) then st
      else if k \<in> set (added baseToRemote)
      then (if k \<in> set (updated localToRemote)
            then st\<lparr>ms_conflicts := set_add k (ms_conflicts st)\<rparr> else st)
      else st)"

text \<open>Added keys in remote.\<close>

definition stepAddedInRemote ::
  "'k ICompareResult \<Rightarrow> 'k ICompareResult \<Rightarrow> 'k \<Rightarrow> 'k MergeSets \<Rightarrow> 'k MergeSets" where
  "stepAddedInRemote localToRemote baseToLocal k st =
     (if k \<in> set (ms_conflicts st) then st
      else if k \<in> set (added baseToLocal)
      then (if k \<in> set (updated localToRemote)
            then st\<lparr>ms_conflicts := set_add k (ms_conflicts st)\<rparr> else st)
      else st\<lparr>ms_added := set_add k (ms_added st)\<rparr>)"

text \<open>Updated keys in Local.\<close>

definition stepUpdatedInLocal ::
  "'k ICompareResult \<Rightarrow> 'k ICompareResult \<Rightarrow> 'k \<Rightarrow> 'k MergeSets \<Rightarrow> 'k MergeSets" where
  "stepUpdatedInLocal localToRemote baseToRemote k st =
     (if k \<in> set (ms_conflicts st) then st
      else if k \<in> set (updated baseToRemote)
      then (if k \<in> set (updated localToRemote)
            then st\<lparr>ms_conflicts := set_add k (ms_conflicts st)\<rparr> else st)
      else st)"

text \<open>Updated keys in Remote.\<close>

definition stepUpdatedInRemote ::
  "'k ICompareResult \<Rightarrow> 'k ICompareResult \<Rightarrow> 'k \<Rightarrow> 'k MergeSets \<Rightarrow> 'k MergeSets" where
  "stepUpdatedInRemote localToRemote baseToLocal k st =
     (if k \<in> set (ms_conflicts st) then st
      else if k \<in> set (updated baseToLocal)
      then (if k \<in> set (updated localToRemote)
            then st\<lparr>ms_conflicts := set_add k (ms_conflicts st)\<rparr> else st)
      else st\<lparr>ms_updated := set_add k (ms_updated st)\<rparr>)"

definition computeMergeResult ::
  "'k ICompareResult \<Rightarrow> 'k ICompareResult \<Rightarrow> 'k ICompareResult \<Rightarrow> 'k MergeSets" where
  "computeMergeResult localToRemote baseToLocal baseToRemote =
     (let st0 = \<lparr>ms_added = [], ms_removed = [], ms_updated = [], ms_conflicts = []\<rparr>;
          st1 = fold (stepRemovedInLocal baseToRemote) (removed baseToLocal) st0;
          st2 = fold (stepRemovedInRemote baseToLocal) (removed baseToRemote) st1;
          st3 = fold (stepAddedInLocal localToRemote baseToRemote) (added baseToLocal) st2;
          st4 = fold (stepAddedInRemote localToRemote baseToLocal) (added baseToRemote) st3;
          st5 = fold (stepUpdatedInLocal localToRemote baseToRemote) (updated baseToLocal) st4;
          st6 = fold (stepUpdatedInRemote localToRemote baseToLocal) (updated baseToRemote) st5
      in st6)"

text \<open>\<^verbatim>\<open>r.added.size === 0 && r.removed.size === 0 && r.updated.size === 0\<close>\<close>

definition isEmptyResult :: "'k ICompareResult \<Rightarrow> bool" where
  "isEmptyResult r = (added r = [] \<and> removed r = [] \<and> updated r = [])"

text \<open>
  The comparison that stands in when there is no base:
  \<^verbatim>\<open>{ added: keys(m).reduce((r, k) => { r.add(k); return r; }, new Set<string>()), removed: new Set<string>(), updated: new Set<string>() }\<close>
\<close>

definition allAdded :: "('k, 'v) jsmap \<Rightarrow> 'k ICompareResult" where
  "allAdded m = \<lparr>added = toSet (keys m), removed = [], updated = []\<rparr>"

text \<open>
  \<^verbatim>\<open>baseByKeybinding ? compareByKeybinding(baseByKeybinding, m) : { added: keys(m)..., ... }\<close>,
  the expression that defines \<^verbatim>\<open>baseToLocalByKeybinding\<close> and \<^verbatim>\<open>baseToRemoteByKeybinding\<close>.
\<close>

definition baseToByKeybinding ::
  "('e, 'a) ext \<Rightarrow> ('k, ('j, 'a) keybinding) jsmap option \<Rightarrow> ('k, ('j, 'a) keybinding) jsmap
     \<Rightarrow> 'k ICompareResult" where
  "baseToByKeybinding x baseByKeybinding m =
     (case baseByKeybinding of
        Some b \<Rightarrow> compareByKeybinding x b m
      | None \<Rightarrow> allAdded m)"

definition computeMergeResultByKeybinding ::
  "('e, 'a) ext \<Rightarrow> (string, 'a) keybinding list \<Rightarrow> (string, 'a) keybinding list
     \<Rightarrow> (string, 'a) keybinding list option \<Rightarrow> normalizedKeys \<Rightarrow> string option IMergeResult" where
  "computeMergeResultByKeybinding x local remote base normalizedKeys =
     (let empty = [];
          localByKeybinding = byKeybinding local normalizedKeys;
          remoteByKeybinding = byKeybinding remote normalizedKeys;
          baseByKeybinding = map_option (\<lambda>b. byKeybinding b normalizedKeys) base;
          localToRemoteByKeybinding = compareByKeybinding x localByKeybinding remoteByKeybinding
      in
      if isEmptyResult localToRemoteByKeybinding then
        \<lparr>hasLocalForwarded = False, hasRemoteForwarded = False,
         mr_added = empty, mr_removed = empty, mr_updated = empty, mr_conflicts = empty\<rparr>
      else
        (let baseToLocalByKeybinding = baseToByKeybinding x baseByKeybinding localByKeybinding in
         if isEmptyResult baseToLocalByKeybinding then
           \<lparr>hasLocalForwarded = False, hasRemoteForwarded = True,
            mr_added = empty, mr_removed = empty, mr_updated = empty, mr_conflicts = empty\<rparr>
         else
           (let baseToRemoteByKeybinding = baseToByKeybinding x baseByKeybinding remoteByKeybinding in
            if isEmptyResult baseToRemoteByKeybinding then
              \<lparr>hasLocalForwarded = True, hasRemoteForwarded = False,
               mr_added = empty, mr_removed = empty, mr_updated = empty, mr_conflicts = empty\<rparr>
            else
              (let r = computeMergeResult localToRemoteByKeybinding baseToLocalByKeybinding
                         baseToRemoteByKeybinding in
               \<lparr>hasLocalForwarded = True, hasRemoteForwarded = True,
                mr_added = ms_added r, mr_removed = ms_removed r, mr_updated = ms_updated r,
                mr_conflicts = ms_conflicts r\<rparr>))))"

subsection \<open>Content rewriter\<close>

text \<open>\<^verbatim>\<open>kb.command === command || kb.command === `-${command}`\<close>\<close>

definition hasCommand :: "string \<Rightarrow> ('k, 'a) keybinding \<Rightarrow> bool" where
  "hasCommand cmd kb = (command kb = cmd \<or> command kb = CHR ''-'' # cmd)"

definition addKeybindings ::
  "('e, 'a) ext \<Rightarrow> string \<Rightarrow> string \<Rightarrow> (string, 'a) keybinding list \<Rightarrow> string" where
  "addKeybindings x content eol keybindings =
     fold (\<lambda>keybinding content. edit x content eol [-1] (Some keybinding)) keybindings content"

text \<open>
  The removal loop of \<^verbatim>\<open>removeKeybindings\<close> and \<^verbatim>\<open>updateKeybindings\<close>:
  \<^verbatim>\<open>for (let index = keybindings.length - 1; index >= 0; index--)\<close>, testing the records
  of the parse made before the loop.
\<close>

definition removeLoop ::
  "('e, 'a) ext \<Rightarrow> (string, 'a) keybinding list \<Rightarrow> string \<Rightarrow> string \<Rightarrow> string \<Rightarrow> string" where
  "removeLoop x keybindings eol cmd content =
     fold (\<lambda>index content.
             if hasCommand cmd (keybindings ! index)
             then edit x content eol [int index] None else content)
       (rev [0..<length keybindings]) content"

definition removeKeybindings :: "('e, 'a) ext \<Rightarrow> string \<Rightarrow> string \<Rightarrow> string \<Rightarrow> string" where
  "removeKeybindings x content eol cmd =
     (let keybindings = parse x content in removeLoop x keybindings eol cmd content)"

text \<open>
  \<^verbatim>\<open>updateKeybindings\<close>. The second loop runs over the indices of \<^verbatim>\<open>keybindings\<close> from
  the last to the first, that is over the reversed list.
\<close>

definition updateKeybindings ::
  "('e, 'a) ext \<Rightarrow> string \<Rightarrow> string \<Rightarrow> string \<Rightarrow> (string, 'a) keybinding list \<Rightarrow> string" where
  "updateKeybindings x content eol cmd keybindings =
     (let allKeybindings = parse x content;
          location = findFirstIndex allKeybindings (hasCommand cmd);
          content1 = removeLoop x allKeybindings eol cmd content
      in fold (\<lambda>keybinding content. edit x content eol [location] (Some keybinding))
           (rev keybindings) content1)"

subsection \<open>merge\<close>

text \<open>
  The test that escalates an added or updated command to a conflict:
  \<^verbatim>\<open>keybindings.some(keybinding => keybinding.command !== `-${command}` && keybindingsMergeResult.conflicts.has(normalizedKeys[keybinding.key]))\<close>
\<close>

definition someKeyInConflict ::
  "normalizedKeys \<Rightarrow> string option list \<Rightarrow> string \<Rightarrow> (string, 'a) keybinding list \<Rightarrow> bool" where
  "someKeyInConflict normalizedKeys keybindingConflicts cmd keybindings =
     list_ex (\<lambda>keybinding. command keybinding \<noteq> CHR ''-'' # cmd
                \<and> normalizedKeys (key keybinding) \<in> set keybindingConflicts) keybindings"

text \<open>
  The bodies of the three loops of the output assembly. The state of the last two is the
  pair of \<^verbatim>\<open>mergeContent\<close> and \<^verbatim>\<open>commandsMergeResult.conflicts\<close>, which they extend.
\<close>

definition stepRemoved :: "('e, 'a) ext \<Rightarrow> string list \<Rightarrow> string \<Rightarrow> string \<Rightarrow> string \<Rightarrow> string" where
  "stepRemoved x conflicts eol cmd content =
     (if cmd \<in> set conflicts then content else removeKeybindings x content eol cmd)"

fun stepAdded ::
  "('e, 'a) ext \<Rightarrow> normalizedKeys \<Rightarrow> string option list
     \<Rightarrow> (string, (string, 'a) keybinding) jsmap \<Rightarrow> string \<Rightarrow> string
     \<Rightarrow> string \<times> string list \<Rightarrow> string \<times> string list" where
  "stepAdded x normalizedKeys keybindingConflicts remoteByCommand eol cmd (content, conflicts) =
     (if cmd \<in> set conflicts then (content, conflicts)
      else
        (let keybindings = getBang remoteByCommand cmd in
         if someKeyInConflict normalizedKeys keybindingConflicts cmd keybindings
         then (content, set_add cmd conflicts)
         else (addKeybindings x content eol keybindings, conflicts)))"

fun stepUpdated ::
  "('e, 'a) ext \<Rightarrow> normalizedKeys \<Rightarrow> string option list
     \<Rightarrow> (string, (string, 'a) keybinding) jsmap \<Rightarrow> string \<Rightarrow> string
     \<Rightarrow> string \<times> string list \<Rightarrow> string \<times> string list" where
  "stepUpdated x normalizedKeys keybindingConflicts remoteByCommand eol cmd (content, conflicts) =
     (if cmd \<in> set conflicts then (content, conflicts)
      else
        (let keybindings = getBang remoteByCommand cmd in
         if someKeyInConflict normalizedKeys keybindingConflicts cmd keybindings
         then (content, set_add cmd conflicts)
         else (updateKeybindings x content eol cmd keybindings, conflicts)))"

text \<open>
  \<^verbatim>\<open>baseByCommand ? compareByCommand(baseByCommand, m, normalizedKeys) : { added: keys(m)..., ... }\<close>,
  the expression that defines \<^verbatim>\<open>baseToLocalByCommand\<close> and \<^verbatim>\<open>baseToRemoteByCommand\<close>.
\<close>

definition baseToByCommand ::
  "('e, 'a) ext \<Rightarrow> ('k, (string, 'a) keybinding) jsmap option
     \<Rightarrow> ('k, (string, 'a) keybinding) jsmap \<Rightarrow> normalizedKeys \<Rightarrow> 'k ICompareResult" where
  "baseToByCommand x baseByCommand m normalizedKeys =
     (case baseByCommand of
        Some b \<Rightarrow> compareByCommand x b m normalizedKeys
      | None \<Rightarrow> allAdded m)"

text \<open>\<^verbatim>\<open>commandsMergeResult\<close>, as the branch of \<^verbatim>\<open>merge\<close> for two forwarded sides computes it.\<close>

definition commandsMergeResult ::
  "('e, 'a) ext \<Rightarrow> (string, 'a) keybinding list \<Rightarrow> (string, 'a) keybinding list
     \<Rightarrow> (string, 'a) keybinding list option \<Rightarrow> normalizedKeys \<Rightarrow> string MergeSets" where
  "commandsMergeResult x local remote base normalizedKeys =
     (let localByCommand = byCommand local;
          remoteByCommand = byCommand remote;
          baseByCommand = map_option byCommand base;
          localToRemoteByCommand = compareByCommand x localByCommand remoteByCommand normalizedKeys;
          baseToLocalByCommand = baseToByCommand x baseByCommand localByCommand normalizedKeys;
          baseToRemoteByCommand = baseToByCommand x baseByCommand remoteByCommand normalizedKeys
      in computeMergeResult localToRemoteByCommand baseToLocalByCommand baseToRemoteByCommand)"

text \<open>
  The output assembly: the three loops of \<^verbatim>\<open>merge\<close> over the removed, added and updated
  commands. It returns the edited text and the final \<^verbatim>\<open>commandsMergeResult.conflicts\<close>.
\<close>

definition assemble ::
  "('e, 'a) ext \<Rightarrow> normalizedKeys \<Rightarrow> string option list
     \<Rightarrow> (string, (string, 'a) keybinding) jsmap \<Rightarrow> string MergeSets \<Rightarrow> string \<Rightarrow> string
     \<Rightarrow> string \<times> string list" where
  "assemble x normalizedKeys keybindingConflicts remoteByCommand cmr eol localContent =
     (let content1 = fold (stepRemoved x (ms_conflicts cmr) eol) (ms_removed cmr) localContent;
          st2 = fold (stepAdded x normalizedKeys keybindingConflicts remoteByCommand eol)
                  (ms_added cmr) (content1, ms_conflicts cmr);
          st3 = fold (stepUpdated x normalizedKeys keybindingConflicts remoteByCommand eol)
                  (ms_updated cmr) st2
      in st3)"

text \<open>
  \<^verbatim>\<open>baseContent ? parse(baseContent) : null\<close>: a \<^verbatim>\<open>null\<close> base and an empty base text are
  both falsy.
\<close>

definition parseBase ::
  "('e, 'a) ext \<Rightarrow> string option \<Rightarrow> (string, 'a) keybinding list option" where
  "parseBase x baseContent =
     (case baseContent of
        None \<Rightarrow> None
      | Some b \<Rightarrow> if b = [] then None else Some (parse x b))"

definition merge ::
  "('e, 'a) ext \<Rightarrow> string \<Rightarrow> string \<Rightarrow> string option \<Rightarrow> normalizedKeys \<Rightarrow> MergeOutput" where
  "merge x localContent remoteContent baseContent normalizedKeys =
     (let local = parse x localContent;
          remote = parse x remoteContent;
          base = parseBase x baseContent;
          keybindingsMergeResult = computeMergeResultByKeybinding x local remote base normalizedKeys
      in
      if \<not> hasLocalForwarded keybindingsMergeResult \<and> \<not> hasRemoteForwarded keybindingsMergeResult
      then \<lparr>mergeContent = localContent, hasChanges = False, hasConflicts = False\<rparr>
      else if \<not> hasLocalForwarded keybindingsMergeResult \<and> hasRemoteForwarded keybindingsMergeResult
      then \<lparr>mergeContent = remoteContent, hasChanges = True, hasConflicts = False\<rparr>
      else if hasLocalForwarded keybindingsMergeResult \<and> \<not> hasRemoteForwarded keybindingsMergeResult
      then \<lparr>mergeContent = localContent, hasChanges = True, hasConflicts = False\<rparr>
      else
        (let cmr = commandsMergeResult x local remote base normalizedKeys;
             eol = getEol x localContent;
             (content, conflicts) =
                assemble x normalizedKeys (mr_conflicts keybindingsMergeResult) (byCommand remote)
                  cmr eol localContent;
             hasConflicts = (conflicts \<noteq> [])
         in
         \<lparr>mergeContent =
            (if hasConflicts
             then ''<<<<<<< local'' @ eol @ content @ eol @ ''======='' @ eol @ remoteContent
                    @ eol @ ''>>>>>>> remote''
             else content),
          hasChanges = True, hasConflicts = hasConflicts\<rparr>))"

subsection \<open>The collaborators' contracts, and a concrete instance\<close>

text \<open>
  Modelled from the spec: \<^verbatim>\<open>contentUtil.edit\<close> is not among the source files. The spec's
  contract of the positional editor, in terms of the parse of its result: passing
  \<^verbatim>\<open>undefined\<close> deletes the record at the index, passing \<open>-1\<close> appends, and passing a
  record at an index inserts it at that position (where \<^verbatim>\<open>updateKeybindings\<close> re-inserts the
  remote's records). Indices refer to the current parse of the text.
\<close>

definition deleteAt :: "nat \<Rightarrow> 'x list \<Rightarrow> 'x list" where
  "deleteAt i xs = take i xs @ drop (Suc i) xs"

definition insertAt :: "nat \<Rightarrow> 'x list \<Rightarrow> 'x list \<Rightarrow> 'x list" where
  "insertAt i ys xs = take i xs @ ys @ drop i xs"

definition editContract :: "('e, 'a) ext \<Rightarrow> bool" where
  "editContract x =
     ((\<forall>content eol i. i < length (parse x content) \<longrightarrow>
          parse x (edit x content eol [int i] None) = deleteAt i (parse x content))
      \<and> (\<forall>content eol i kb. i \<le> length (parse x content) \<longrightarrow>
          parse x (edit x content eol [int i] (Some kb)) = insertAt i [kb] (parse x content))
      \<and> (\<forall>content eol kb.
          parse x (edit x content eol [-1] (Some kb)) = parse x content @ [kb]))"

text \<open>
  Modelled from the spec: the guard comparator and \<^verbatim>\<open>objects.equals\<close> are not among the
  source files. For the spec the first decides semantic equality of guards and the second
  deep value equality; both hold of a value and itself.
\<close>

definition reflexiveComparators :: "('e, 'a) ext \<Rightarrow> bool" where
  "reflexiveComparators x = ((\<forall>e. exprEquals x e e) \<and> (\<forall>a. objectsEquals x a a))"

text \<open>
  A small text format with a parser and an editor that meet the contract, to run the model
  on concrete documents. A string is written character by character, each after a \<open>c\<close>,
  and closed by a full stop; an optional string is \<open>n\<close>, or \<open>s\<close> and the string; a
  record is its four fields in a row; a document is \<open>[\<close>, the records, each after a
  comma, and \<open>]\<close>. Guards are compared as strings, and \<^verbatim>\<open>args\<close> is an optional string.
\<close>

definition encString :: "string \<Rightarrow> string" where
  "encString s = concat (map (\<lambda>c. [CHR ''c'', c]) s) @ ''.''"

fun decString :: "string \<Rightarrow> string \<times> string" where
  "decString (a # b # r) =
     (if a = CHR ''c'' then (case decString r of (s, r') \<Rightarrow> (b # s, r')) else ([], b # r))"
| "decString [a] = ([], [])"
| "decString [] = ([], [])"

definition encOption :: "string option \<Rightarrow> string" where
  "encOption v = (case v of None \<Rightarrow> ''n'' | Some s \<Rightarrow> CHR ''s'' # encString s)"

fun decOption :: "string \<Rightarrow> string option \<times> string" where
  "decOption (a # r) =
     (if a = CHR ''s'' then (case decString r of (s, r') \<Rightarrow> (Some s, r')) else (None, r))"
| "decOption [] = (None, [])"

definition encKeybinding :: "(string, string option) keybinding \<Rightarrow> string" where
  "encKeybinding kb =
     encString (key kb) @ encString (command kb) @ encOption (when' kb) @ encOption (args kb)"

definition decKeybinding :: "string \<Rightarrow> (string, string option) keybinding \<times> string" where
  "decKeybinding r =
     (case decString r of (k, r1) \<Rightarrow>
      case decString r1 of (c, r2) \<Rightarrow>
      case decOption r2 of (w, r3) \<Rightarrow>
      case decOption r3 of (a, r4) \<Rightarrow>
        (\<lparr>key = k, command = c, when' = w, args = a\<rparr>, r4))"

definition render :: "(string, string option) keybinding list \<Rightarrow> string" where
  "render kbs = CHR ''['' # concat (map (\<lambda>kb. CHR '','' # encKeybinding kb) kbs) @ '']''"

fun decList :: "nat \<Rightarrow> string \<Rightarrow> (string, string option) keybinding list" where
  "decList 0 r = []"
| "decList (Suc n) [] = []"
| "decList (Suc n) (a # r) =
     (if a = CHR '','' then (case decKeybinding r of (kb, r') \<Rightarrow> kb # decList n r') else [])"

definition parseText :: "string \<Rightarrow> (string, string option) keybinding list" where
  "parseText s =
     (case s of [] \<Rightarrow> [] | a # r \<Rightarrow> if a = CHR ''['' then decList (length r) r else [])"

definition editList :: "'x list \<Rightarrow> int list \<Rightarrow> 'x option \<Rightarrow> 'x list" where
  "editList xs path v =
     (case path of
        [i] \<Rightarrow>
          (case v of
             None \<Rightarrow> if 0 \<le> i \<and> i < int (length xs) then deleteAt (nat i) xs else xs
           | Some kb \<Rightarrow>
               if i < 0 \<or> int (length xs) < i then xs @ [kb] else insertAt (nat i) [kb] xs)
      | _ \<Rightarrow> xs)"

definition editText ::
  "string \<Rightarrow> string \<Rightarrow> int list \<Rightarrow> (string, string option) keybinding option \<Rightarrow> string" where
  "editText content eol path v = render (editList (parseText content) path v)"

definition deserializeText :: "string option \<Rightarrow> string option" where
  "deserializeText serialized =
     (case serialized of None \<Rightarrow> None | Some s \<Rightarrow> if s = [] then None else Some s)"

definition textExt :: "(string, string option) ext" where
  "textExt =
     \<lparr>parse = parseText, edit = editText, getEol = (\<lambda>content. [CHR 0x0A]),
      deserialize = deserializeText, exprEquals = (\<lambda>a b. a = b),
      objectsEquals = (\<lambda>a b. a = b)\<rparr>"

text \<open>
  A parser that finds no record in any text, as the JSON parser finds none in a document of
  comments and an empty list.
\<close>

definition emptyExt :: "(string, string option) ext" where
  "emptyExt = textExt\<lparr>parse := (\<lambda>content. [])\<rparr>"

text \<open>The table that maps every key to itself.\<close>

definition identityKeys :: normalizedKeys where
  "identityKeys k = Some k"

text \<open>A record with a key and a command, and no guard or arguments.\<close>

definition binding :: "string \<Rightarrow> string \<Rightarrow> (string, string option) keybinding" where
  "binding k c = \<lparr>key = k, command = c, when' = None, args = None\<rparr>"

text \<open>A record with a guard.\<close>

definition guarded :: "string \<Rightarrow> string \<Rightarrow> string \<Rightarrow> (string, string option) keybinding" where
  "guarded k c w = \<lparr>key = k, command = c, when' = Some w, args = None\<rparr>"

text \<open>
  A document that holds a marker line inside a block comment, before an empty list of
  records.
\<close>

definition commentedText :: string where
  "commentedText =
     ''/*'' @ [CHR 0x0A] @ ''<<<<<<< local'' @ [CHR 0x0A] @ ''*/'' @ [CHR 0x0A] @ ''[]''"

subsection \<open>Predicates of the proofs\<close>

text \<open>A key that is in conflicts and in none of added, removed and updated.\<close>

definition conflictOnly :: "'k \<Rightarrow> 'k MergeSets \<Rightarrow> bool" where
  "conflictOnly k st =
     (k \<in> set (ms_conflicts st) \<and> k \<notin> set (ms_added st) \<and> k \<notin> set (ms_removed st)
      \<and> k \<notin> set (ms_updated st))"

section \<open>Properties\<close>

subsection \<open>The concrete instance meets the contracts\<close>

lemma decString_enc: "decString (encString s @ r) = (s, r)"
proof (induction s)
  case Nil
  show ?case by (cases r) (simp_all add: encString_def)
next
  case (Cons a s)
  then show ?case by (simp add: encString_def)
qed

lemma decOption_enc: "decOption (encOption v @ r) = (v, r)"
  by (cases v) (simp_all add: encOption_def decString_enc)

lemma decKeybinding_enc: "decKeybinding (encKeybinding kb @ r) = (kb, r)"
  by (simp add: decKeybinding_def encKeybinding_def decString_enc decOption_enc)

lemma decList_render:
  "length (concat (map (\<lambda>kb. CHR '','' # encKeybinding kb) kbs) @ '']'') \<le> n
   \<Longrightarrow> decList n (concat (map (\<lambda>kb. CHR '','' # encKeybinding kb) kbs) @ '']'') = kbs"
proof (induction kbs arbitrary: n)
  case Nil
  then show ?case by (cases n) simp_all
next
  case (Cons kb kbs)
  then obtain m where n: "n = Suc m" by (cases n) auto
  with Cons.prems have "length (concat (map (\<lambda>kb. CHR '','' # encKeybinding kb) kbs) @ '']'') \<le> m"
    by simp
  from Cons.IH[OF this] show ?case by (simp add: n decKeybinding_enc)
qed

lemma parseText_render: "parseText (render kbs) = kbs"
  by (simp add: parseText_def render_def decList_render)

lemma render_not_empty: "render kbs \<noteq> []"
  by (simp add: render_def)

lemma editContract_textExt: "editContract textExt"
  by (simp add: editContract_def textExt_def editText_def parseText_render editList_def)

lemma reflexiveComparators_textExt: "reflexiveComparators textExt"
  by (simp add: reflexiveComparators_def textExt_def)

subsection \<open>Equality predicates\<close>

lemma equals_list_all2: "equals one other itemEquals = list_all2 itemEquals one other"
  by (induction one other itemEquals rule: equals.induct) simp_all

lemma equals_refl: "(\<And>a. itemEquals a a) \<Longrightarrow> equals one one itemEquals"
  by (induction one) simp_all

lemma isSameKeybinding_refl: "reflexiveComparators x \<Longrightarrow> isSameKeybinding x a a"
  by (auto simp: isSameKeybinding_def reflexiveComparators_def Let_def split: option.splits)

text \<open>
  C8. \<^verbatim>\<open>isSameKeybinding\<close> returns true exactly when the two command strings are equal,
  the two key strings are equal, the two \<^verbatim>\<open>args\<close> are equal under \<^verbatim>\<open>objects.equals\<close>, and
  the deserialized \<^verbatim>\<open>when\<close> guards are both absent, or both present and equal under the
  expression comparator. A guard present on one record and absent on the other makes the
  records unequal.
\<close>

theorem isSameKeybinding_iff:
  "isSameKeybinding x a b \<longleftrightarrow>
     command a = command b \<and> key a = key b \<and> objectsEquals x (args a) (args b) \<and>
     (case (deserialize x (when' a), deserialize x (when' b)) of
        (None, None) \<Rightarrow> True
      | (Some ea, Some eb) \<Rightarrow> exprEquals x ea eb
      | (None, Some eb) \<Rightarrow> False
      | (Some ea, None) \<Rightarrow> False)"
  by (auto simp: isSameKeybinding_def Let_def split: option.splits)

theorem isSameKeybinding_iff_witness:
  "isSameKeybinding textExt (binding ''ctrl+a'' ''copy'') (binding ''ctrl+a'' ''copy'')
   \<and> \<not> isSameKeybinding textExt (binding ''ctrl+a'' ''copy'')
         ((binding ''ctrl+a'' ''copy'')\<lparr>when' := Some ''editorFocus''\<rparr>)"
  using isSameKeybinding_iff [of textExt "binding ''ctrl+a'' ''copy''" "binding ''ctrl+a'' ''copy''"]
    isSameKeybinding_iff [of textExt "binding ''ctrl+a'' ''copy''"
       "(binding ''ctrl+a'' ''copy'')\<lparr>when' := Some ''editorFocus''\<rparr>"]
  by (simp add: textExt_def binding_def deserializeText_def)

lemma filter_pos_normal:
  "filter (\<lambda>kb. \<not> startsWithDash (command kb))
     (filter (\<lambda>kb. \<not> startsWithDash (command kb)) v @ filter (\<lambda>kb. startsWithDash (command kb)) v)
   = filter (\<lambda>kb. \<not> startsWithDash (command kb)) v"
  by (induction v) auto

lemma filter_neg_normal:
  "filter (\<lambda>kb. startsWithDash (command kb))
     (filter (\<lambda>kb. \<not> startsWithDash (command kb)) v @ filter (\<lambda>kb. startsWithDash (command kb)) v)
   = filter (\<lambda>kb. startsWithDash (command kb)) v"
  by (induction v) auto

text \<open>
  C9. \<^verbatim>\<open>areSameKeybindingsWithSameCommand\<close> holds exactly when the entries whose command
  does not start with \<open>-\<close> are, in order, pairwise the same keybinding in the two lists
  (same number, position by position), and so are the entries whose command starts with
  \<open>-\<close>. How the two kinds are interleaved does not matter: the result is the same on the
  lists rearranged to hold the first kind before the second.
\<close>

theorem areSameKeybindingsWithSameCommand_iff:
  "(areSameKeybindingsWithSameCommand x value1 value2 \<longleftrightarrow>
      list_all2 (isSameKeybinding x)
        (filter (\<lambda>kb. \<not> startsWithDash (command kb)) value1)
        (filter (\<lambda>kb. \<not> startsWithDash (command kb)) value2)
      \<and> list_all2 (isSameKeybinding x)
        (filter (\<lambda>kb. startsWithDash (command kb)) value1)
        (filter (\<lambda>kb. startsWithDash (command kb)) value2))
   \<and> areSameKeybindingsWithSameCommand x value1 value2 =
       areSameKeybindingsWithSameCommand x
         (filter (\<lambda>kb. \<not> startsWithDash (command kb)) value1
            @ filter (\<lambda>kb. startsWithDash (command kb)) value1)
         (filter (\<lambda>kb. \<not> startsWithDash (command kb)) value2
            @ filter (\<lambda>kb. startsWithDash (command kb)) value2)"
  unfolding areSameKeybindingsWithSameCommand_def equals_list_all2 filter_pos_normal filter_neg_normal
  by auto

theorem areSameKeybindingsWithSameCommand_iff_witness:
  "areSameKeybindingsWithSameCommand textExt
     [binding ''a'' ''copy'', binding ''b'' ''-copy'', binding ''c'' ''copy'']
     [binding ''b'' ''-copy'', binding ''a'' ''copy'', binding ''c'' ''copy'']
   \<and> \<not> areSameKeybindingsWithSameCommand textExt
     [binding ''a'' ''copy'', binding ''c'' ''copy'']
     [binding ''c'' ''copy'', binding ''a'' ''copy'']"
  using areSameKeybindingsWithSameCommand_iff [of textExt
      "[binding ''a'' ''copy'', binding ''b'' ''-copy'', binding ''c'' ''copy'']"
      "[binding ''b'' ''-copy'', binding ''a'' ''copy'', binding ''c'' ''copy'']"]
    areSameKeybindingsWithSameCommand_iff [of textExt
      "[binding ''a'' ''copy'', binding ''c'' ''copy'']"
      "[binding ''c'' ''copy'', binding ''a'' ''copy'']"]
  by (simp add: isSameKeybinding_def textExt_def binding_def deserializeText_def startsWithDash_def)

subsection \<open>Sets, maps and compare\<close>

lemma set_set_add: "set (set_add x s) = insert x (set s)"
  by (auto simp: set_add_def)

lemma set_foldl_set_add: "set (foldl (\<lambda>r k. set_add k r) acc xs) = set acc \<union> set xs"
  by (induction xs arbitrary: acc) (auto simp: set_set_add)

lemma set_toSet: "set (toSet xs) = set xs"
  by (simp add: toSet_def set_foldl_set_add)

lemma toSet_Nil: "toSet [] = []"
  by (simp add: toSet_def)

lemma toSet_eq_Nil: "toSet xs = [] \<longleftrightarrow> xs = []"
  using set_toSet [of xs] by (metis set_empty toSet_Nil)

lemma set_foldl_cond_add:
  assumes "\<And>u k. k \<in> set ks \<Longrightarrow> f u k = (if C k then set_add k u else u)"
  shows "set (foldl f acc ks) = set acc \<union> {k \<in> set ks. C k}"
  using assms by (induction ks arbitrary: acc) (auto simp: set_set_add)

lemma foldl_cond_add_Nil:
  assumes "\<And>u k. k \<in> set ks \<Longrightarrow> f u k = (if C k then set_add k u else u)"
    and "\<And>k. k \<in> set ks \<Longrightarrow> \<not> C k"
  shows "foldl f [] ks = []"
proof -
  have "set (foldl f [] ks) = set [] \<union> {k \<in> set ks. C k}"
    by (rule set_foldl_cond_add) (rule assms(1))
  with assms(2) have "set (foldl f [] ks) = {}" by auto
  then show ?thesis by simp
qed

lemma map_of_keys: "k \<in> set (keys m) \<Longrightarrow> \<exists>v. map_of m k = Some v"
  by (metis keys_def map_of_eq_None_iff not_Some_eq set_map)

lemma removed_compareByKeybinding:
  "set (removed (compareByKeybinding x from to)) = set (keys from) - set (keys to)"
  by (auto simp: compareByKeybinding_def Let_def set_toSet)

lemma added_compareByKeybinding:
  "set (added (compareByKeybinding x from to)) = set (keys to) - set (keys from)"
  by (auto simp: compareByKeybinding_def Let_def set_toSet)

lemma removed_compareByCommand:
  "set (removed (compareByCommand x from to n)) = set (keys from) - set (keys to)"
  by (auto simp: compareByCommand_def Let_def set_toSet)

lemma added_compareByCommand:
  "set (added (compareByCommand x from to n)) = set (keys to) - set (keys from)"
  by (auto simp: compareByCommand_def Let_def set_toSet)

lemma updated_compareByKeybinding:
  "set (updated (compareByKeybinding x from to)) =
     {k \<in> set (keys from). k \<in> set (keys to) \<and>
        \<not> equals (map (withKey k) (getBang from k)) (map (withKey k) (getBang to k))
            (\<lambda>a b. isSameKeybinding x a b)}"
  unfolding compareByKeybinding_def Let_def
  by (simp, subst set_foldl_cond_add [where C = "\<lambda>k. k \<in> set (keys to) \<and>
        \<not> equals (map (withKey k) (getBang from k)) (map (withKey k) (getBang to k))
            (\<lambda>a b. isSameKeybinding x a b)"])
    (auto simp: set_toSet)

lemma updated_compareByCommand:
  "set (updated (compareByCommand x from to n)) =
     {k \<in> set (keys from). k \<in> set (keys to) \<and>
        \<not> areSameKeybindingsWithSameCommand x
            (map (\<lambda>kb. withKey (n (key kb)) kb) (getBang from k))
            (map (\<lambda>kb. withKey (n (key kb)) kb) (getBang to k))}"
  unfolding compareByCommand_def Let_def
  by (simp, subst set_foldl_cond_add [where C = "\<lambda>k. k \<in> set (keys to) \<and>
        \<not> areSameKeybindingsWithSameCommand x
            (map (\<lambda>kb. withKey (n (key kb)) kb) (getBang from k))
            (map (\<lambda>kb. withKey (n (key kb)) kb) (getBang to k))"])
    (auto simp: set_toSet)

lemma areSameKeybindingsWithSameCommand_refl:
  "reflexiveComparators x \<Longrightarrow> areSameKeybindingsWithSameCommand x v v"
  by (simp add: areSameKeybindingsWithSameCommand_def equals_refl isSameKeybinding_refl)

text \<open>The lookups \<^verbatim>\<open>from.get(key)!\<close> and \<^verbatim>\<open>to.get(key)!\<close> of the compare loops find an entry.\<close>

lemma getBang_compare_from:
  "k \<in> set (keys from) \<Longrightarrow> \<exists>v. map_of from k = Some v"
  by (rule map_of_keys)

lemma getBang_compare_to:
  "k \<in> set (keys from) \<Longrightarrow> k \<notin> set (removed (compareByKeybinding x from to))
     \<Longrightarrow> \<exists>v. map_of to k = Some v"
  "k \<in> set (keys fromC) \<Longrightarrow> k \<notin> set (removed (compareByCommand x fromC toC n))
     \<Longrightarrow> \<exists>v. map_of toC k = Some v"
  by (simp_all add: removed_compareByKeybinding removed_compareByCommand map_of_keys)

lemmas eval_defs =
  byKeybinding_def byCommand_def commandOf_def startsWithDash_def binding_def
  keys_def getBang_def withKey_def isSameKeybinding_def textExt_def deserializeText_def
  areSameKeybindingsWithSameCommand_def identityKeys_def compareByKeybinding_def
  compareByCommand_def toSet_def set_add_def isEmptyResult_def baseToByKeybinding_def
  baseToByCommand_def allAdded_def parseBase_def render_not_empty parseText_render

text \<open>
  C7. \<^verbatim>\<open>compareByKeybinding\<close> and \<^verbatim>\<open>compareByCommand\<close> put a grouping key in \<^verbatim>\<open>updated\<close>
  exactly when the key is present in both groupings and the two record lists are not equal
  under the equality predicate after each record's key field has been rewritten to the
  canonical key (the grouping key in \<^verbatim>\<open>compareByKeybinding\<close>, the record's own normalized key
  in \<^verbatim>\<open>compareByCommand\<close>). In particular two groups whose records differ only in the raw
  spelling of their keys, so that the rewritten lists are the same, are not marked updated
  (for comparators that hold of a value and itself).
\<close>

theorem compare_updated_iff:
  "(k \<in> set (updated (compareByKeybinding x from to)) \<longleftrightarrow>
      k \<in> set (keys from) \<and> k \<in> set (keys to) \<and>
      \<not> equals (map (withKey k) (getBang from k)) (map (withKey k) (getBang to k))
          (\<lambda>a b. isSameKeybinding x a b))
   \<and> (c \<in> set (updated (compareByCommand x fromC toC n)) \<longleftrightarrow>
      c \<in> set (keys fromC) \<and> c \<in> set (keys toC) \<and>
      \<not> areSameKeybindingsWithSameCommand x
          (map (\<lambda>kb. withKey (n (key kb)) kb) (getBang fromC c))
          (map (\<lambda>kb. withKey (n (key kb)) kb) (getBang toC c)))
   \<and> (reflexiveComparators x \<and>
        map (withKey k) (getBang from k) = map (withKey k) (getBang to k)
        \<longrightarrow> k \<notin> set (updated (compareByKeybinding x from to)))
   \<and> (reflexiveComparators x \<and>
        map (\<lambda>kb. withKey (n (key kb)) kb) (getBang fromC c)
          = map (\<lambda>kb. withKey (n (key kb)) kb) (getBang toC c)
        \<longrightarrow> c \<notin> set (updated (compareByCommand x fromC toC n)))"
  by (simp add: updated_compareByKeybinding updated_compareByCommand
      equals_refl isSameKeybinding_refl areSameKeybindingsWithSameCommand_refl)

theorem compare_updated_iff_witness:
  "reflexiveComparators textExt
   \<and> Some ''ctrl+a'' \<notin> set (updated (compareByKeybinding textExt
         (byKeybinding [binding ''ctrl+a'' ''copy''] (map_of [(''ctrl+a'', ''ctrl+a''), (''Ctrl+A'', ''ctrl+a'')]))
         (byKeybinding [binding ''Ctrl+A'' ''copy''] (map_of [(''ctrl+a'', ''ctrl+a''), (''Ctrl+A'', ''ctrl+a'')]))))
   \<and> ''copy'' \<notin> set (updated (compareByCommand textExt
         (byCommand [binding ''ctrl+a'' ''copy'']) (byCommand [binding ''Ctrl+A'' ''copy''])
         (map_of [(''ctrl+a'', ''ctrl+a''), (''Ctrl+A'', ''ctrl+a'')])))
   \<and> Some ''ctrl+a'' \<in> set (updated (compareByKeybinding textExt
         (byKeybinding [binding ''ctrl+a'' ''copy''] (map_of [(''ctrl+a'', ''ctrl+a''), (''Ctrl+A'', ''ctrl+a'')]))
         (byKeybinding [binding ''Ctrl+A'' ''paste''] (map_of [(''ctrl+a'', ''ctrl+a''), (''Ctrl+A'', ''ctrl+a'')]))))
   \<and> ''copy'' \<in> set (updated (compareByCommand textExt
         (byCommand [binding ''ctrl+a'' ''copy'']) (byCommand [binding ''ctrl+b'' ''copy''])
         identityKeys))"
  using reflexiveComparators_textExt
    compare_updated_iff [of "Some ''ctrl+a''" textExt
      "byKeybinding [binding ''ctrl+a'' ''copy''] (map_of [(''ctrl+a'', ''ctrl+a''), (''Ctrl+A'', ''ctrl+a'')])"
      "byKeybinding [binding ''Ctrl+A'' ''copy''] (map_of [(''ctrl+a'', ''ctrl+a''), (''Ctrl+A'', ''ctrl+a'')])"
      "''copy''" "byCommand [binding ''ctrl+a'' ''copy'']" "byCommand [binding ''Ctrl+A'' ''copy'']"
      "map_of [(''ctrl+a'', ''ctrl+a''), (''Ctrl+A'', ''ctrl+a'')]"]
    compare_updated_iff [of "Some ''ctrl+a''" textExt
      "byKeybinding [binding ''ctrl+a'' ''copy''] (map_of [(''ctrl+a'', ''ctrl+a''), (''Ctrl+A'', ''ctrl+a'')])"
      "byKeybinding [binding ''Ctrl+A'' ''paste''] (map_of [(''ctrl+a'', ''ctrl+a''), (''Ctrl+A'', ''ctrl+a'')])"
      "''copy''" "byCommand [binding ''ctrl+a'' ''copy'']" "byCommand [binding ''ctrl+b'' ''copy'']"
      identityKeys]
  by (simp add: byKeybinding_def byCommand_def commandOf_def startsWithDash_def binding_def
      keys_def getBang_def withKey_def isSameKeybinding_def textExt_def deserializeText_def
      areSameKeybindingsWithSameCommand_def identityKeys_def)

subsection \<open>The fast paths of merge\<close>

lemma compareByKeybinding_same:
  assumes "reflexiveComparators x"
  shows "compareByKeybinding x m m = \<lparr>added = [], removed = [], updated = []\<rparr>"
proof -
  have "foldl (\<lambda>updated k.
          if \<not> equals (map (withKey k) (getBang m k)) (map (withKey k) (getBang m k))
                (\<lambda>a b. isSameKeybinding x a b)
          then set_add k updated else updated) [] (keys m) = []"
    by (rule foldl_cond_add_Nil [where C = "\<lambda>k. \<not> equals (map (withKey k) (getBang m k))
          (map (withKey k) (getBang m k)) (\<lambda>a b. isSameKeybinding x a b)"])
      (simp_all add: equals_refl isSameKeybinding_refl assms)
  then show ?thesis
    by (simp add: compareByKeybinding_def Let_def toSet_Nil)
qed

lemma merge_no_change:
  assumes "reflexiveComparators x"
  shows "merge x content content baseContent normalizedKeys
           = \<lparr>mergeContent = content, hasChanges = False, hasConflicts = False\<rparr>"
  by (simp add: merge_def computeMergeResultByKeybinding_def Let_def
      compareByKeybinding_same [OF assms] isEmptyResult_def)

lemma reflexiveComparators_emptyExt: "reflexiveComparators emptyExt"
  by (simp add: reflexiveComparators_def emptyExt_def textExt_def)

text \<open>
  C1. For every text, every normalization table and comparators that hold of a value and
  itself, \<^verbatim>\<open>merge(X, X, X, N)\<close> returns the local text unchanged, \<^verbatim>\<open>hasChanges = false\<close>
  and \<^verbatim>\<open>hasConflicts = false\<close>. (The base plays no part: the result is the same for every
  base, the text \<open>X\<close> among them.)
\<close>

theorem merge_same:
  assumes "reflexiveComparators x"
  shows "merge x content content baseContent normalizedKeys
           = \<lparr>mergeContent = content, hasChanges = False, hasConflicts = False\<rparr>"
  using assms by (rule merge_no_change)

theorem merge_same_witness:
  "reflexiveComparators textExt
   \<and> merge textExt (render [binding ''ctrl+a'' ''copy'', binding ''ctrl+v'' ''paste''])
       (render [binding ''ctrl+a'' ''copy'', binding ''ctrl+v'' ''paste''])
       (Some (render [binding ''ctrl+a'' ''copy'', binding ''ctrl+v'' ''paste''])) identityKeys
     = \<lparr>mergeContent = render [binding ''ctrl+a'' ''copy'', binding ''ctrl+v'' ''paste''],
        hasChanges = False, hasConflicts = False\<rparr>"
  using reflexiveComparators_textExt
    merge_same [OF reflexiveComparators_textExt,
      of "render [binding ''ctrl+a'' ''copy'', binding ''ctrl+v'' ''paste'']"
         "Some (render [binding ''ctrl+a'' ''copy'', binding ''ctrl+v'' ''paste''])" identityKeys]
  by simp

text \<open>
  C2. Given that local and remote differ under the comparison by canonical key: if the
  comparison of base and local is empty while that of base and remote is not, \<^verbatim>\<open>merge\<close>
  returns the remote text verbatim with \<^verbatim>\<open>hasChanges = true\<close> and \<^verbatim>\<open>hasConflicts = false\<close>;
  if only the comparison of base and local is non-empty, it returns the local text verbatim
  with the same flags.
\<close>

theorem merge_one_side_forwarded:
  assumes "localByKeybinding = byKeybinding (parse x localContent) normalizedKeys"
    and "remoteByKeybinding = byKeybinding (parse x remoteContent) normalizedKeys"
    and "baseByKeybinding =
           map_option (\<lambda>b. byKeybinding b normalizedKeys) (parseBase x baseContent)"
    and "\<not> isEmptyResult (compareByKeybinding x localByKeybinding remoteByKeybinding)"
  shows "(isEmptyResult (baseToByKeybinding x baseByKeybinding localByKeybinding)
            \<and> \<not> isEmptyResult (baseToByKeybinding x baseByKeybinding remoteByKeybinding)
          \<longrightarrow> merge x localContent remoteContent baseContent normalizedKeys
                = \<lparr>mergeContent = remoteContent, hasChanges = True, hasConflicts = False\<rparr>)
       \<and> (\<not> isEmptyResult (baseToByKeybinding x baseByKeybinding localByKeybinding)
            \<and> isEmptyResult (baseToByKeybinding x baseByKeybinding remoteByKeybinding)
          \<longrightarrow> merge x localContent remoteContent baseContent normalizedKeys
                = \<lparr>mergeContent = localContent, hasChanges = True, hasConflicts = False\<rparr>)"
  using assms by (simp add: merge_def computeMergeResultByKeybinding_def Let_def)

theorem merge_one_side_forwarded_witness:
  "\<not> isEmptyResult (compareByKeybinding textExt
        (byKeybinding [binding ''ctrl+a'' ''copy''] identityKeys)
        (byKeybinding [binding ''ctrl+a'' ''copy'', binding ''ctrl+v'' ''paste''] identityKeys))
   \<and> isEmptyResult (baseToByKeybinding textExt
        (Some (byKeybinding [binding ''ctrl+a'' ''copy''] identityKeys))
        (byKeybinding [binding ''ctrl+a'' ''copy''] identityKeys))
   \<and> \<not> isEmptyResult (baseToByKeybinding textExt
        (Some (byKeybinding [binding ''ctrl+a'' ''copy''] identityKeys))
        (byKeybinding [binding ''ctrl+a'' ''copy'', binding ''ctrl+v'' ''paste''] identityKeys))
   \<and> merge textExt (render [binding ''ctrl+a'' ''copy''])
        (render [binding ''ctrl+a'' ''copy'', binding ''ctrl+v'' ''paste''])
        (Some (render [binding ''ctrl+a'' ''copy''])) identityKeys
      = \<lparr>mergeContent = render [binding ''ctrl+a'' ''copy'', binding ''ctrl+v'' ''paste''],
         hasChanges = True, hasConflicts = False\<rparr>
   \<and> merge textExt (render [binding ''ctrl+a'' ''copy'', binding ''ctrl+v'' ''paste''])
        (render [binding ''ctrl+a'' ''copy''])
        (Some (render [binding ''ctrl+a'' ''copy''])) identityKeys
      = \<lparr>mergeContent = render [binding ''ctrl+a'' ''copy'', binding ''ctrl+v'' ''paste''],
         hasChanges = True, hasConflicts = False\<rparr>"
proof -
  let ?one = "[binding ''ctrl+a'' ''copy'']"
  let ?two = "[binding ''ctrl+a'' ''copy'', binding ''ctrl+v'' ''paste'']"
  have p: "parse textExt = parseText" by (simp add: textExt_def)
  have fwd: "\<not> isEmptyResult (compareByKeybinding textExt
        (byKeybinding ?one identityKeys) (byKeybinding ?two identityKeys))"
    by (simp add: eval_defs)
  have bwd: "\<not> isEmptyResult (compareByKeybinding textExt
        (byKeybinding ?two identityKeys) (byKeybinding ?one identityKeys))"
    by (simp add: eval_defs)
  have same: "isEmptyResult (baseToByKeybinding textExt
        (Some (byKeybinding ?one identityKeys)) (byKeybinding ?one identityKeys))"
    by (simp add: eval_defs)
  have moved: "\<not> isEmptyResult (baseToByKeybinding textExt
        (Some (byKeybinding ?one identityKeys)) (byKeybinding ?two identityKeys))"
    by (simp add: eval_defs)
  from merge_one_side_forwarded [of "byKeybinding ?one identityKeys" textExt "render ?one"
      identityKeys "byKeybinding ?two identityKeys" "render ?two"
      "Some (byKeybinding ?one identityKeys)" "Some (render ?one)"]
    merge_one_side_forwarded [of "byKeybinding ?two identityKeys" textExt "render ?two"
      identityKeys "byKeybinding ?one identityKeys" "render ?one"
      "Some (byKeybinding ?one identityKeys)" "Some (render ?one)"]
    fwd bwd same moved
  show ?thesis
    by (simp add: p parseText_render parseBase_def render_not_empty)
qed

subsection \<open>computeMergeResult\<close>

lemma fold_invariant:
  assumes "\<And>k st. I st \<Longrightarrow> I (f k st)" and "I st"
  shows "I (fold f ks st)"
  using assms(2) by (induction ks arbitrary: st) (simp_all add: assms(1))

lemmas step_defs =
  stepRemovedInLocal_def stepRemovedInRemote_def stepAddedInLocal_def stepAddedInRemote_def
  stepUpdatedInLocal_def stepUpdatedInRemote_def

lemma conflictOnly_step:
  assumes "conflictOnly k st"
  shows "conflictOnly k (stepRemovedInLocal b2r j st)"
    and "conflictOnly k (stepRemovedInRemote b2l j st)"
    and "conflictOnly k (stepAddedInLocal l2r b2r j st)"
    and "conflictOnly k (stepAddedInRemote l2r b2l j st)"
    and "conflictOnly k (stepUpdatedInLocal l2r b2r j st)"
    and "conflictOnly k (stepUpdatedInRemote l2r b2l j st)"
  using assms by (auto simp: conflictOnly_def step_defs set_set_add)

lemma conflictOnly_fold:
  assumes "conflictOnly k st"
  shows "conflictOnly k (fold (stepRemovedInLocal b2r) ks st)"
    and "conflictOnly k (fold (stepRemovedInRemote b2l) ks st)"
    and "conflictOnly k (fold (stepAddedInLocal l2r b2r) ks st)"
    and "conflictOnly k (fold (stepAddedInRemote l2r b2l) ks st)"
    and "conflictOnly k (fold (stepUpdatedInLocal l2r b2r) ks st)"
    and "conflictOnly k (fold (stepUpdatedInRemote l2r b2l) ks st)"
  by (rule fold_invariant [where I = "conflictOnly k"], simp add: conflictOnly_step, rule assms)+

lemma stepRemovedInLocal_others:
  "ms_added (stepRemovedInLocal b2r j st) = ms_added st"
  "ms_removed (stepRemovedInLocal b2r j st) = ms_removed st"
  "ms_updated (stepRemovedInLocal b2r j st) = ms_updated st"
  by (simp_all add: stepRemovedInLocal_def)

lemma stepRemovedInLocal_conflicts:
  "set (ms_conflicts (stepRemovedInLocal b2r j st))
     = set (ms_conflicts st) \<union> (if j \<in> set (updated b2r) then {j} else {})"
  by (simp add: stepRemovedInLocal_def set_set_add)

text \<open>The first loop touches conflicts only, and adds every iterated key that remote updated.\<close>

lemma fold_stepRemovedInLocal_others:
  "ms_added (fold (stepRemovedInLocal b2r) ks st) = ms_added st
   \<and> ms_removed (fold (stepRemovedInLocal b2r) ks st) = ms_removed st
   \<and> ms_updated (fold (stepRemovedInLocal b2r) ks st) = ms_updated st"
  by (rule fold_invariant [where I = "\<lambda>s. ms_added s = ms_added st
        \<and> ms_removed s = ms_removed st \<and> ms_updated s = ms_updated st"])
    (simp_all add: stepRemovedInLocal_others)

lemma fold_stepRemovedInLocal_conflicts:
  "set (ms_conflicts (fold (stepRemovedInLocal b2r) ks st))
     = set (ms_conflicts st) \<union> {k \<in> set ks. k \<in> set (updated b2r)}"
proof (induction ks arbitrary: st)
  case Nil
  show ?case by simp
next
  case (Cons j ks)
  show ?case
    by (simp add: Cons.IH stepRemovedInLocal_conflicts) blast
qed

text \<open>
  The second loop leaves added and updated alone, never puts a key that local updated in
  removed, and puts every iterated key that local updated in conflicts.
\<close>

lemma stepRemovedInRemote_others:
  "ms_added (stepRemovedInRemote b2l j st) = ms_added st"
  "ms_updated (stepRemovedInRemote b2l j st) = ms_updated st"
  by (simp_all add: stepRemovedInRemote_def)

lemma stepRemovedInRemote_removed:
  "k \<in> set (updated b2l) \<Longrightarrow> k \<notin> set (ms_removed st)
     \<Longrightarrow> k \<notin> set (ms_removed (stepRemovedInRemote b2l j st))"
  by (auto simp: stepRemovedInRemote_def set_set_add)

lemma stepRemovedInRemote_conflicts:
  "k \<in> set (ms_conflicts st) \<Longrightarrow> k \<in> set (ms_conflicts (stepRemovedInRemote b2l j st))"
  "k \<in> set (updated b2l) \<Longrightarrow> k \<in> set (ms_conflicts (stepRemovedInRemote b2l k st))"
  by (simp_all add: stepRemovedInRemote_def set_set_add)

lemma fold_stepRemovedInRemote_others:
  "ms_added (fold (stepRemovedInRemote b2l) ks st) = ms_added st
   \<and> ms_updated (fold (stepRemovedInRemote b2l) ks st) = ms_updated st"
  by (rule fold_invariant [where I = "\<lambda>s. ms_added s = ms_added st
        \<and> ms_updated s = ms_updated st"])
    (simp_all add: stepRemovedInRemote_others)

lemma fold_stepRemovedInRemote_removed:
  "k \<in> set (updated b2l) \<Longrightarrow> k \<notin> set (ms_removed st)
     \<Longrightarrow> k \<notin> set (ms_removed (fold (stepRemovedInRemote b2l) ks st))"
  by (induction ks arbitrary: st) (simp_all add: stepRemovedInRemote_removed)

lemma fold_stepRemovedInRemote_keeps:
  "k \<in> set (ms_conflicts st) \<Longrightarrow> k \<in> set (ms_conflicts (fold (stepRemovedInRemote b2l) ks st))"
  by (induction ks arbitrary: st) (simp_all add: stepRemovedInRemote_conflicts(1))

lemma fold_stepRemovedInRemote_conflicts:
  "k \<in> set (updated b2l) \<Longrightarrow> k \<in> set ks
     \<Longrightarrow> k \<in> set (ms_conflicts (fold (stepRemovedInRemote b2l) ks st))"
proof (induction ks arbitrary: st)
  case Nil
  then show ?case by simp
next
  case (Cons j ks)
  show ?case
  proof (cases "j = k")
    case True
    with Cons.prems(1) show ?thesis
      by (simp add: fold_stepRemovedInRemote_keeps stepRemovedInRemote_conflicts(2))
  next
    case False
    with Cons show ?thesis by simp
  qed
qed

lemma computeMergeResult_removed_updated:
  assumes "(k \<in> set (removed baseToLocal) \<and> k \<in> set (updated baseToRemote))
           \<or> (k \<in> set (removed baseToRemote) \<and> k \<in> set (updated baseToLocal))"
  shows "conflictOnly k (computeMergeResult localToRemote baseToLocal baseToRemote)"
proof -
  let ?st0 = "\<lparr>ms_added = [], ms_removed = [], ms_updated = [], ms_conflicts = []\<rparr> :: 'a MergeSets"
  let ?st1 = "fold (stepRemovedInLocal baseToRemote) (removed baseToLocal) ?st0"
  let ?st2 = "fold (stepRemovedInRemote baseToLocal) (removed baseToRemote) ?st1"
  have st1: "ms_added ?st1 = []" "ms_removed ?st1 = []" "ms_updated ?st1 = []"
    using fold_stepRemovedInLocal_others [of baseToRemote "removed baseToLocal" ?st0] by simp_all
  have "conflictOnly k ?st2"
  proof (cases "k \<in> set (removed baseToLocal) \<and> k \<in> set (updated baseToRemote)")
    case True
    then have "k \<in> set (ms_conflicts ?st1)"
      by (simp add: fold_stepRemovedInLocal_conflicts)
    with st1 have "conflictOnly k ?st1" by (simp add: conflictOnly_def)
    then show ?thesis by (rule conflictOnly_fold)
  next
    case False
    with assms have k: "k \<in> set (removed baseToRemote)" "k \<in> set (updated baseToLocal)"
      by auto
    have "k \<in> set (ms_conflicts ?st2)"
      using k by (simp add: fold_stepRemovedInRemote_conflicts)
    moreover have "k \<notin> set (ms_removed ?st2)"
      using k(2) st1(2) by (simp add: fold_stepRemovedInRemote_removed)
    moreover have "ms_added ?st2 = []" "ms_updated ?st2 = []"
      using fold_stepRemovedInRemote_others [of baseToLocal "removed baseToRemote" ?st1] st1
      by simp_all
    ultimately show ?thesis by (simp add: conflictOnly_def)
  qed
  then have "conflictOnly k
      (fold (stepAddedInLocal localToRemote baseToRemote) (added baseToLocal) ?st2)"
    by (rule conflictOnly_fold(3))
  then have "conflictOnly k
      (fold (stepAddedInRemote localToRemote baseToLocal) (added baseToRemote)
        (fold (stepAddedInLocal localToRemote baseToRemote) (added baseToLocal) ?st2))"
    by (rule conflictOnly_fold(4))
  then have "conflictOnly k
      (fold (stepUpdatedInLocal localToRemote baseToRemote) (updated baseToLocal)
        (fold (stepAddedInRemote localToRemote baseToLocal) (added baseToRemote)
          (fold (stepAddedInLocal localToRemote baseToRemote) (added baseToLocal) ?st2)))"
    by (rule conflictOnly_fold(5))
  then have "conflictOnly k
      (fold (stepUpdatedInRemote localToRemote baseToLocal) (updated baseToRemote)
        (fold (stepUpdatedInLocal localToRemote baseToRemote) (updated baseToLocal)
          (fold (stepAddedInRemote localToRemote baseToLocal) (added baseToRemote)
            (fold (stepAddedInLocal localToRemote baseToRemote) (added baseToLocal) ?st2))))"
    by (rule conflictOnly_fold(6))
  then show ?thesis
    unfolding computeMergeResult_def Let_def .
qed

text \<open>The loops of the output assembly only add to the command conflicts.\<close>

lemma stepAdded_conflicts:
  "set (snd st) \<subseteq> set (snd (stepAdded x n kc rbc eol cmd st))"
  by (cases st) (auto simp: Let_def set_set_add)

lemma stepUpdated_conflicts:
  "set (snd st) \<subseteq> set (snd (stepUpdated x n kc rbc eol cmd st))"
  by (cases st) (auto simp: Let_def set_set_add)

lemma fold_stepAdded_conflicts:
  "set (snd st) \<subseteq> set (snd (fold (stepAdded x n kc rbc eol) cmds st))"
  by (rule fold_invariant [where I = "\<lambda>s. set (snd st) \<subseteq> set (snd s)"])
    (use stepAdded_conflicts in blast, simp)

lemma fold_stepUpdated_conflicts:
  "set (snd st) \<subseteq> set (snd (fold (stepUpdated x n kc rbc eol) cmds st))"
  by (rule fold_invariant [where I = "\<lambda>s. set (snd st) \<subseteq> set (snd s)"])
    (use stepUpdated_conflicts in blast, simp)

lemma assemble_conflicts:
  "set (ms_conflicts cmr) \<subseteq> set (snd (assemble x n kc rbc cmr eol content))"
proof -
  let ?c1 = "fold (stepRemoved x (ms_conflicts cmr) eol) (ms_removed cmr) content"
  let ?st2 = "fold (stepAdded x n kc rbc eol) (ms_added cmr) (?c1, ms_conflicts cmr)"
  have "set (ms_conflicts cmr) \<subseteq> set (snd ?st2)"
    using fold_stepAdded_conflicts [of "(?c1, ms_conflicts cmr)" x n kc rbc eol "ms_added cmr"]
    by simp
  also have "\<dots> \<subseteq> set (snd (fold (stepUpdated x n kc rbc eol) (ms_updated cmr) ?st2))"
    by (rule fold_stepUpdated_conflicts)
  finally show ?thesis by (simp add: assemble_def Let_def)
qed

text \<open>What \<^verbatim>\<open>merge\<close> returns when both sides have moved forward.\<close>

lemma merge_both_forwarded:
  assumes "hasLocalForwarded (computeMergeResultByKeybinding x (parse x localContent)
             (parse x remoteContent) (parseBase x baseContent) normalizedKeys)"
    and "hasRemoteForwarded (computeMergeResultByKeybinding x (parse x localContent)
             (parse x remoteContent) (parseBase x baseContent) normalizedKeys)"
    and "assemble x normalizedKeys
           (mr_conflicts (computeMergeResultByKeybinding x (parse x localContent)
             (parse x remoteContent) (parseBase x baseContent) normalizedKeys))
           (byCommand (parse x remoteContent))
           (commandsMergeResult x (parse x localContent) (parse x remoteContent)
             (parseBase x baseContent) normalizedKeys)
           (getEol x localContent) localContent = (content, conflicts)"
  shows "merge x localContent remoteContent baseContent normalizedKeys =
     \<lparr>mergeContent =
        (if conflicts \<noteq> []
         then ''<<<<<<< local'' @ getEol x localContent @ content @ getEol x localContent
                @ ''======='' @ getEol x localContent @ remoteContent
                @ getEol x localContent @ ''>>>>>>> remote''
         else content),
      hasChanges = True, hasConflicts = (conflicts \<noteq> [])\<rparr>"
  using assms by (simp add: merge_def Let_def)

text \<open>
  C3. In the command-level merge, a command that one side removed and the other side
  updated, relative to base, is put in conflicts and in none of added, removed and updated;
  so, when both sides have moved forward and \<^verbatim>\<open>merge\<close> reaches the command-level merge, the
  result has \<^verbatim>\<open>hasConflicts = true\<close>.
\<close>

theorem removed_and_updated_is_conflict:
  assumes "(k \<in> set (removed baseToLocal) \<and> k \<in> set (updated baseToRemote))
           \<or> (k \<in> set (removed baseToRemote) \<and> k \<in> set (updated baseToLocal))"
  shows "(k \<in> set (ms_conflicts (computeMergeResult localToRemote baseToLocal baseToRemote))
          \<and> k \<notin> set (ms_added (computeMergeResult localToRemote baseToLocal baseToRemote))
          \<and> k \<notin> set (ms_removed (computeMergeResult localToRemote baseToLocal baseToRemote))
          \<and> k \<notin> set (ms_updated (computeMergeResult localToRemote baseToLocal baseToRemote)))
       \<and> (local = parse x localContent \<and> remote = parse x remoteContent
            \<and> base = parseBase x baseContent
            \<and> localToRemote = compareByCommand x (byCommand local) (byCommand remote) normalizedKeys
            \<and> baseToLocal = baseToByCommand x (map_option byCommand base) (byCommand local) normalizedKeys
            \<and> baseToRemote = baseToByCommand x (map_option byCommand base) (byCommand remote) normalizedKeys
            \<and> hasLocalForwarded (computeMergeResultByKeybinding x local remote base normalizedKeys)
            \<and> hasRemoteForwarded (computeMergeResultByKeybinding x local remote base normalizedKeys)
          \<longrightarrow> hasConflicts (merge x localContent remoteContent baseContent normalizedKeys))"
proof (intro conjI impI)
  have c: "conflictOnly k (computeMergeResult localToRemote baseToLocal baseToRemote)"
    using assms by (rule computeMergeResult_removed_updated)
  then show "k \<in> set (ms_conflicts (computeMergeResult localToRemote baseToLocal baseToRemote))"
    "k \<notin> set (ms_added (computeMergeResult localToRemote baseToLocal baseToRemote))"
    "k \<notin> set (ms_removed (computeMergeResult localToRemote baseToLocal baseToRemote))"
    "k \<notin> set (ms_updated (computeMergeResult localToRemote baseToLocal baseToRemote))"
    by (simp_all add: conflictOnly_def)
  assume h: "local = parse x localContent \<and> remote = parse x remoteContent
            \<and> base = parseBase x baseContent
            \<and> localToRemote = compareByCommand x (byCommand local) (byCommand remote) normalizedKeys
            \<and> baseToLocal = baseToByCommand x (map_option byCommand base) (byCommand local) normalizedKeys
            \<and> baseToRemote = baseToByCommand x (map_option byCommand base) (byCommand remote) normalizedKeys
            \<and> hasLocalForwarded (computeMergeResultByKeybinding x local remote base normalizedKeys)
            \<and> hasRemoteForwarded (computeMergeResultByKeybinding x local remote base normalizedKeys)"
  let ?kmr = "computeMergeResultByKeybinding x local remote base normalizedKeys"
  let ?cmr = "commandsMergeResult x local remote base normalizedKeys"
  obtain content conflicts where a:
    "assemble x normalizedKeys (mr_conflicts ?kmr) (byCommand remote) ?cmr
       (getEol x localContent) localContent = (content, conflicts)"
    by (cases "assemble x normalizedKeys (mr_conflicts ?kmr) (byCommand remote) ?cmr
       (getEol x localContent) localContent")
  from h have "localToRemote = compareByCommand x (byCommand local) (byCommand remote) normalizedKeys"
    and "baseToLocal = baseToByCommand x (map_option byCommand base) (byCommand local) normalizedKeys"
    and "baseToRemote = baseToByCommand x (map_option byCommand base) (byCommand remote) normalizedKeys"
    by blast+
  then have "?cmr = computeMergeResult localToRemote baseToLocal baseToRemote"
    by (simp add: commandsMergeResult_def Let_def)
  with c have "k \<in> set (ms_conflicts ?cmr)" by (simp add: conflictOnly_def)
  with assemble_conflicts [of ?cmr x normalizedKeys "mr_conflicts ?kmr" "byCommand remote"
      "getEol x localContent" localContent] a
  have "k \<in> set conflicts" by auto
  then have "conflicts \<noteq> []" by auto
  from h have l: "local = parse x localContent" and r: "remote = parse x remoteContent"
    and b: "base = parseBase x baseContent" by blast+
  from h have f: "hasLocalForwarded ?kmr" "hasRemoteForwarded ?kmr" by blast+
  have "merge x localContent remoteContent baseContent normalizedKeys =
     \<lparr>mergeContent =
        (if conflicts \<noteq> []
         then ''<<<<<<< local'' @ getEol x localContent @ content @ getEol x localContent
                @ ''======='' @ getEol x localContent @ remoteContent
                @ getEol x localContent @ ''>>>>>>> remote''
         else content),
      hasChanges = True, hasConflicts = (conflicts \<noteq> [])\<rparr>"
    by (rule merge_both_forwarded) (use f a in \<open>simp_all only: l r b\<close>)
  with \<open>conflicts \<noteq> []\<close>
  show "hasConflicts (merge x localContent remoteContent baseContent normalizedKeys)"
    by simp
qed

lemmas merge_eval_defs =
  computeMergeResultByKeybinding_def computeMergeResult_def commandsMergeResult_def
  stepRemovedInLocal_def stepRemovedInRemote_def stepAddedInLocal_def stepAddedInRemote_def
  stepUpdatedInLocal_def stepUpdatedInRemote_def
  guarded_def

theorem removed_and_updated_is_conflict_witness:
  "''delete'' \<in> set (removed (baseToByCommand textExt
        (map_option byCommand (Some [binding ''ctrl+d'' ''delete''])) (byCommand []) identityKeys))
   \<and> ''delete'' \<in> set (updated (baseToByCommand textExt
        (map_option byCommand (Some [binding ''ctrl+d'' ''delete'']))
        (byCommand [guarded ''ctrl+d'' ''delete'' ''editorFocus'']) identityKeys))
   \<and> hasLocalForwarded (computeMergeResultByKeybinding textExt []
        [guarded ''ctrl+d'' ''delete'' ''editorFocus''] (Some [binding ''ctrl+d'' ''delete''])
        identityKeys)
   \<and> hasRemoteForwarded (computeMergeResultByKeybinding textExt []
        [guarded ''ctrl+d'' ''delete'' ''editorFocus''] (Some [binding ''ctrl+d'' ''delete''])
        identityKeys)
   \<and> ms_conflicts (commandsMergeResult textExt []
        [guarded ''ctrl+d'' ''delete'' ''editorFocus''] (Some [binding ''ctrl+d'' ''delete''])
        identityKeys) = [''delete'']
   \<and> hasConflicts (merge textExt (render [])
        (render [guarded ''ctrl+d'' ''delete'' ''editorFocus''])
        (Some (render [binding ''ctrl+d'' ''delete''])) identityKeys)"
proof -
  let ?base = "[binding ''ctrl+d'' ''delete'']"
  let ?remote = "[guarded ''ctrl+d'' ''delete'' ''editorFocus'']"
  let ?local = "[] :: (string, string option) keybinding list"
  let ?b2l = "baseToByCommand textExt (map_option byCommand (Some ?base)) (byCommand ?local) identityKeys"
  let ?b2r = "baseToByCommand textExt (map_option byCommand (Some ?base)) (byCommand ?remote) identityKeys"
  let ?l2r = "compareByCommand textExt (byCommand ?local) (byCommand ?remote) identityKeys"
  have p: "parse textExt = parseText" by (simp add: textExt_def)
  have pb: "parseBase textExt (Some (render ?base)) = Some ?base"
    by (simp add: parseBase_def render_not_empty p parseText_render)
  have h1: "''delete'' \<in> set (removed ?b2l)" by (simp add: eval_defs)
  have h2: "''delete'' \<in> set (updated ?b2r)" by (simp add: eval_defs merge_eval_defs)
  have f1: "hasLocalForwarded (computeMergeResultByKeybinding textExt ?local ?remote (Some ?base) identityKeys)"
    by (simp add: eval_defs merge_eval_defs)
  have f2: "hasRemoteForwarded (computeMergeResultByKeybinding textExt ?local ?remote (Some ?base) identityKeys)"
    by (simp add: eval_defs merge_eval_defs)
  have c: "ms_conflicts (commandsMergeResult textExt ?local ?remote (Some ?base) identityKeys) = [''delete'']"
    by (simp add: eval_defs merge_eval_defs)
  from removed_and_updated_is_conflict [where k = "''delete''" and baseToLocal = ?b2l
      and baseToRemote = ?b2r and localToRemote = ?l2r and x = textExt and local = ?local
      and remote = ?remote and base = "Some ?base" and localContent = "render ?local"
      and remoteContent = "render ?remote" and baseContent = "Some (render ?base)"
      and normalizedKeys = identityKeys]
    h1 h2 f1 f2 pb
  have "hasConflicts (merge textExt (render ?local) (render ?remote) (Some (render ?base)) identityKeys)"
    by (simp add: p parseText_render)
  with h1 h2 f1 f2 c show ?thesis by simp
qed

subsection \<open>The guard on added and updated commands\<close>

lemma someKeyInConflict_filter:
  "someKeyInConflict n kc cmd kbs
     = list_ex (\<lambda>kb. n (key kb) \<in> set kc) (filter (\<lambda>kb. command kb \<noteq> CHR ''-'' # cmd) kbs)"
  by (induction kbs) (auto simp: someKeyInConflict_def)

lemma someKeyInConflict_negated:
  "\<forall>kb \<in> set kbs. command kb = CHR ''-'' # cmd \<Longrightarrow> \<not> someKeyInConflict n kc cmd kbs"
  by (simp add: someKeyInConflict_def list_ex_iff)

lemma someKeyInConflict_empty: "\<not> someKeyInConflict n [] cmd kbs"
  by (simp add: someKeyInConflict_def list_ex_iff)

text \<open>
  C10. The guard that escalates an added or updated command tests against the binding-level
  conflict set only the remote records whose command is not the negated form \<open>-command\<close>.
  A command all of whose remote records are negations is not escalated, whatever their
  canonical keys: the loop bodies leave the command conflicts as they are.
\<close>

theorem negated_records_not_tested:
  "someKeyInConflict normalizedKeys keybindingConflicts cmd keybindings
     = list_ex (\<lambda>kb. normalizedKeys (key kb) \<in> set keybindingConflicts)
         (filter (\<lambda>kb. command kb \<noteq> CHR ''-'' # cmd) keybindings)
   \<and> ((\<forall>kb \<in> set keybindings. command kb = CHR ''-'' # cmd)
        \<longrightarrow> \<not> someKeyInConflict normalizedKeys keybindingConflicts cmd keybindings)
   \<and> ((\<forall>kb \<in> set (getBang remoteByCommand cmd). command kb = CHR ''-'' # cmd)
        \<longrightarrow> snd (stepAdded x normalizedKeys keybindingConflicts remoteByCommand eol cmd
                   (content, conflicts)) = conflicts
          \<and> snd (stepUpdated x normalizedKeys keybindingConflicts remoteByCommand eol cmd
                   (content, conflicts)) = conflicts)"
  by (simp add: someKeyInConflict_filter [symmetric] someKeyInConflict_negated Let_def)

theorem negated_records_not_tested_witness:
  "map command (getBang (byCommand [binding ''ctrl+c'' ''-copy'', binding ''ctrl+x'' ''-copy''])
        ''copy'') = [''-copy'', ''-copy'']
   \<and> \<not> someKeyInConflict identityKeys [Some ''ctrl+c'', Some ''ctrl+x''] ''copy''
         [binding ''ctrl+c'' ''-copy'', binding ''ctrl+x'' ''-copy'']
   \<and> snd (stepAdded textExt identityKeys [Some ''ctrl+c'', Some ''ctrl+x'']
          (byCommand [binding ''ctrl+c'' ''-copy'', binding ''ctrl+x'' ''-copy''])
          [CHR 0x0A] ''copy'' (render [], [])) = []
   \<and> snd (stepUpdated textExt identityKeys [Some ''ctrl+c'', Some ''ctrl+x'']
          (byCommand [binding ''ctrl+c'' ''-copy'', binding ''ctrl+x'' ''-copy''])
          [CHR 0x0A] ''copy'' (render [], [])) = []
   \<and> someKeyInConflict identityKeys [Some ''ctrl+c'', Some ''ctrl+x''] ''copy''
         [binding ''ctrl+c'' ''-copy'', binding ''ctrl+x'' ''copy'']"
proof -
  let ?kbs = "[binding ''ctrl+c'' ''-copy'', binding ''ctrl+x'' ''-copy'']"
  have g: "getBang (byCommand ?kbs) ''copy'' = ?kbs"
    by (simp add: eval_defs)
  have h: "\<forall>kb \<in> set ?kbs. command kb = CHR ''-'' # ''copy''"
    by (simp add: binding_def)
  have pos: "someKeyInConflict identityKeys [Some ''ctrl+c'', Some ''ctrl+x''] ''copy''
         [binding ''ctrl+c'' ''-copy'', binding ''ctrl+x'' ''copy'']"
    by (simp add: someKeyInConflict_def binding_def identityKeys_def)
  have m: "map command (getBang (byCommand ?kbs) ''copy'') = [''-copy'', ''-copy'']"
    by (simp add: g) (simp add: binding_def)
  from negated_records_not_tested [where keybindings = ?kbs and cmd = "''copy''"
      and remoteByCommand = "byCommand ?kbs" and normalizedKeys = identityKeys
      and keybindingConflicts = "[Some ''ctrl+c'', Some ''ctrl+x'']" and x = textExt
      and eol = "[CHR 0x0A]" and content = "render []" and conflicts = "[]"] g h pos m
  show ?thesis by simp
qed

lemma stepAdded_no_keybindingConflicts:
  "snd (stepAdded x n [] rbc eol cmd st) = snd st"
  by (cases st) (simp add: Let_def someKeyInConflict_empty)

lemma stepUpdated_no_keybindingConflicts:
  "snd (stepUpdated x n [] rbc eol cmd st) = snd st"
  by (cases st) (simp add: Let_def someKeyInConflict_empty)

lemma assemble_no_keybindingConflicts:
  "snd (assemble x n [] rbc cmr eol content) = ms_conflicts cmr"
proof -
  have a: "snd (fold (stepAdded x n [] rbc eol) cmds st) = snd st" for cmds st
    by (rule fold_invariant [where I = "\<lambda>s. snd s = snd st"])
      (simp_all add: stepAdded_no_keybindingConflicts)
  have u: "snd (fold (stepUpdated x n [] rbc eol) cmds st) = snd st" for cmds st
    by (rule fold_invariant [where I = "\<lambda>s. snd s = snd st"])
      (simp_all add: stepUpdated_no_keybindingConflicts)
  show ?thesis by (simp add: assemble_def Let_def a u)
qed

text \<open>The guard, once it holds of a command, puts the command in the command conflicts.\<close>

lemma someKeyInConflict_iff:
  "someKeyInConflict n kc cmd kbs
     \<longleftrightarrow> (\<exists>kb \<in> set kbs. command kb \<noteq> CHR ''-'' # cmd \<and> n (key kb) \<in> set kc)"
  by (simp add: someKeyInConflict_def list_ex_iff)

lemma stepAdded_in_conflicts:
  "cmd \<in> set (snd st) \<or> someKeyInConflict n kc cmd (getBang rbc cmd)
     \<Longrightarrow> cmd \<in> set (snd (stepAdded x n kc rbc eol cmd st))"
  by (cases st) (auto simp: Let_def set_set_add)

lemma stepUpdated_in_conflicts:
  "cmd \<in> set (snd st) \<or> someKeyInConflict n kc cmd (getBang rbc cmd)
     \<Longrightarrow> cmd \<in> set (snd (stepUpdated x n kc rbc eol cmd st))"
  by (cases st) (auto simp: Let_def set_set_add)

lemma fold_stepAdded_escalates:
  assumes "cmd \<in> set cmds" and "someKeyInConflict n kc cmd (getBang rbc cmd)"
  shows "cmd \<in> set (snd (fold (stepAdded x n kc rbc eol) cmds st))"
  using assms(1)
proof (induction cmds arbitrary: st)
  case Nil
  then show ?case by simp
next
  case (Cons c cmds)
  show ?case
  proof (cases "c = cmd")
    case True
    have "cmd \<in> set (snd (stepAdded x n kc rbc eol cmd st))"
      using assms(2) by (simp add: stepAdded_in_conflicts)
    with fold_stepAdded_conflicts [of "stepAdded x n kc rbc eol cmd st" x n kc rbc eol cmds]
    show ?thesis using True by auto
  next
    case False
    with Cons show ?thesis by simp
  qed
qed

lemma fold_stepUpdated_escalates:
  assumes "cmd \<in> set cmds" and "someKeyInConflict n kc cmd (getBang rbc cmd)"
  shows "cmd \<in> set (snd (fold (stepUpdated x n kc rbc eol) cmds st))"
  using assms(1)
proof (induction cmds arbitrary: st)
  case Nil
  then show ?case by simp
next
  case (Cons c cmds)
  show ?case
  proof (cases "c = cmd")
    case True
    have "cmd \<in> set (snd (stepUpdated x n kc rbc eol cmd st))"
      using assms(2) by (simp add: stepUpdated_in_conflicts)
    with fold_stepUpdated_conflicts [of "stepUpdated x n kc rbc eol cmd st" x n kc rbc eol cmds]
    show ?thesis using True by auto
  next
    case False
    with Cons show ?thesis by simp
  qed
qed

lemma assemble_escalates:
  assumes "cmd \<in> set (ms_added cmr) \<or> cmd \<in> set (ms_updated cmr)"
    and "someKeyInConflict n kc cmd (getBang rbc cmd)"
  shows "cmd \<in> set (snd (assemble x n kc rbc cmr eol content))"
proof -
  let ?c1 = "fold (stepRemoved x (ms_conflicts cmr) eol) (ms_removed cmr) content"
  let ?st2 = "fold (stepAdded x n kc rbc eol) (ms_added cmr) (?c1, ms_conflicts cmr)"
  let ?st3 = "fold (stepUpdated x n kc rbc eol) (ms_updated cmr) ?st2"
  have "cmd \<in> set (snd ?st3)"
  proof (cases "cmd \<in> set (ms_updated cmr)")
    case True
    then show ?thesis using assms(2) by (rule fold_stepUpdated_escalates)
  next
    case False
    with assms(1) have "cmd \<in> set (ms_added cmr)" by simp
    then have "cmd \<in> set (snd ?st2)" using assms(2) by (rule fold_stepAdded_escalates)
    with fold_stepUpdated_conflicts [of ?st2 x n kc rbc eol "ms_updated cmr"]
    show ?thesis by auto
  qed
  then show ?thesis by (simp add: assemble_def Let_def)
qed

lemma merge_escalated:
  assumes f: "hasLocalForwarded (computeMergeResultByKeybinding x (parse x localContent)
             (parse x remoteContent) (parseBase x baseContent) normalizedKeys)"
      "hasRemoteForwarded (computeMergeResultByKeybinding x (parse x localContent)
             (parse x remoteContent) (parseBase x baseContent) normalizedKeys)"
    and c: "cmd \<in> set (ms_added (commandsMergeResult x (parse x localContent)
               (parse x remoteContent) (parseBase x baseContent) normalizedKeys))
          \<or> cmd \<in> set (ms_updated (commandsMergeResult x (parse x localContent)
               (parse x remoteContent) (parseBase x baseContent) normalizedKeys))"
    and g: "someKeyInConflict normalizedKeys
             (mr_conflicts (computeMergeResultByKeybinding x (parse x localContent)
               (parse x remoteContent) (parseBase x baseContent) normalizedKeys))
             cmd (getBang (byCommand (parse x remoteContent)) cmd)"
  shows "hasConflicts (merge x localContent remoteContent baseContent normalizedKeys)"
proof -
  let ?kmr = "computeMergeResultByKeybinding x (parse x localContent)
             (parse x remoteContent) (parseBase x baseContent) normalizedKeys"
  let ?cmr = "commandsMergeResult x (parse x localContent)
               (parse x remoteContent) (parseBase x baseContent) normalizedKeys"
  obtain content conflicts where a:
    "assemble x normalizedKeys (mr_conflicts ?kmr) (byCommand (parse x remoteContent)) ?cmr
       (getEol x localContent) localContent = (content, conflicts)"
    by (cases "assemble x normalizedKeys (mr_conflicts ?kmr) (byCommand (parse x remoteContent))
       ?cmr (getEol x localContent) localContent")
  from assemble_escalates [OF c g, of x "getEol x localContent" localContent] a
  have "cmd \<in> set conflicts" by simp
  then have "conflicts \<noteq> []" by auto
  with merge_both_forwarded [OF f a] show ?thesis by simp
qed

text \<open>
  C4, as claimed: whenever the guard is evaluated the binding-level conflict set is empty, so
  the guard never escalates a command and has no effect on the output. This fails: base binds
  a key to \<open>save\<close>, local rebinds it to \<open>open\<close> and remote to \<open>close\<close>. Both sides
  have moved forward, the binding-level conflict set holds the key, the command-level merge
  finds no conflict and adds \<open>close\<close>; the guard escalates \<open>close\<close>, and \<^verbatim>\<open>merge\<close> reports
  a conflict that the same assembly with an empty set would not.
\<close>

theorem keybinding_conflicts_escalate:
  "hasLocalForwarded (computeMergeResultByKeybinding textExt [binding ''ctrl+k'' ''open'']
      [binding ''ctrl+k'' ''close''] (Some [binding ''ctrl+k'' ''save'']) identityKeys)
   \<and> hasRemoteForwarded (computeMergeResultByKeybinding textExt [binding ''ctrl+k'' ''open'']
      [binding ''ctrl+k'' ''close''] (Some [binding ''ctrl+k'' ''save'']) identityKeys)
   \<and> mr_conflicts (computeMergeResultByKeybinding textExt [binding ''ctrl+k'' ''open'']
      [binding ''ctrl+k'' ''close''] (Some [binding ''ctrl+k'' ''save'']) identityKeys)
      = [Some ''ctrl+k'']
   \<and> commandsMergeResult textExt [binding ''ctrl+k'' ''open'']
      [binding ''ctrl+k'' ''close''] (Some [binding ''ctrl+k'' ''save'']) identityKeys
      = \<lparr>ms_added = [''close''], ms_removed = [''save''], ms_updated = [], ms_conflicts = []\<rparr>
   \<and> someKeyInConflict identityKeys [Some ''ctrl+k''] ''close''
        (getBang (byCommand [binding ''ctrl+k'' ''close'']) ''close'')
   \<and> assemble textExt identityKeys [Some ''ctrl+k''] (byCommand [binding ''ctrl+k'' ''close''])
        \<lparr>ms_added = [''close''], ms_removed = [''save''], ms_updated = [], ms_conflicts = []\<rparr>
        [CHR 0x0A] (render [binding ''ctrl+k'' ''open''])
      = (render [binding ''ctrl+k'' ''open''], [''close''])
   \<and> snd (assemble textExt identityKeys [] (byCommand [binding ''ctrl+k'' ''close''])
        \<lparr>ms_added = [''close''], ms_removed = [''save''], ms_updated = [], ms_conflicts = []\<rparr>
        [CHR 0x0A] (render [binding ''ctrl+k'' ''open''])) = []
   \<and> hasConflicts (merge textExt (render [binding ''ctrl+k'' ''open''])
        (render [binding ''ctrl+k'' ''close'']) (Some (render [binding ''ctrl+k'' ''save'']))
        identityKeys)"
proof -
  let ?local = "[binding ''ctrl+k'' ''open'']"
  let ?remote = "[binding ''ctrl+k'' ''close'']"
  let ?base = "[binding ''ctrl+k'' ''save'']"
  let ?kmr = "computeMergeResultByKeybinding textExt ?local ?remote (Some ?base) identityKeys"
  let ?cmr = "commandsMergeResult textExt ?local ?remote (Some ?base) identityKeys"
  have p: "parse textExt = parseText" and e: "getEol textExt = (\<lambda>c. [CHR 0x0A])"
    by (simp_all add: textExt_def)
  have pb: "parseBase textExt (Some (render ?base)) = Some ?base"
    by (simp add: parseBase_def render_not_empty p parseText_render)
  have kmr: "?kmr = \<lparr>hasLocalForwarded = True, hasRemoteForwarded = True, mr_added = [],
      mr_removed = [], mr_updated = [], mr_conflicts = [Some ''ctrl+k'']\<rparr>"
    by (simp add: eval_defs merge_eval_defs)
  have cmr: "?cmr = \<lparr>ms_added = [''close''], ms_removed = [''save''], ms_updated = [],
      ms_conflicts = []\<rparr>"
    by (simp add: eval_defs merge_eval_defs)
  have g: "someKeyInConflict identityKeys [Some ''ctrl+k''] ''close''
        (getBang (byCommand ?remote) ''close'')"
    by (simp add: eval_defs someKeyInConflict_def)
  have a: "assemble textExt identityKeys [Some ''ctrl+k''] (byCommand ?remote)
        \<lparr>ms_added = [''close''], ms_removed = [''save''], ms_updated = [], ms_conflicts = []\<rparr>
        [CHR 0x0A] (render ?local) = (render ?local, [''close''])"
    using g
    by (simp add: assemble_def stepRemoved_def removeKeybindings_def removeLoop_def
        hasCommand_def p parseText_render Let_def binding_def set_add_def)
  have "hasConflicts (merge textExt (render ?local) (render ?remote) (Some (render ?base)) identityKeys)"
    by (simp add: merge_def Let_def p e pb parseText_render kmr cmr a)
  with kmr cmr g a show ?thesis by (simp add: assemble_no_keybindingConflicts)
qed

text \<open>
  C4, amended. Whenever the guard is evaluated (both sides have moved forward), the
  binding-level conflict set it consults is the conflicts set that \<^verbatim>\<open>computeMergeResult\<close>
  computes from the three comparisons by canonical key; it is empty by construction only on
  the three fast paths, which do not evaluate the guard. When the set is empty the guard
  escalates no command and the output assembly leaves the command conflicts as computed.
  Otherwise the guard holds of a command exactly when one of its remote records that is not
  the negated form has its canonical key in the set; the loop bodies then add the command to
  the command conflicts and leave the text alone, the assembly ends with the command in
  conflicts, and \<^verbatim>\<open>merge\<close> returns \<^verbatim>\<open>hasConflicts = true\<close>. A command that is not in conflicts and
  of which the guard does not hold leaves the command conflicts as they are.
\<close>

theorem guard_consults_keybinding_conflicts:
  assumes "keybindingsMergeResult =
             computeMergeResultByKeybinding x local remote base normalizedKeys"
  shows "(hasLocalForwarded keybindingsMergeResult \<and> hasRemoteForwarded keybindingsMergeResult
          \<longrightarrow> mr_conflicts keybindingsMergeResult =
                ms_conflicts (computeMergeResult
                  (compareByKeybinding x (byKeybinding local normalizedKeys)
                     (byKeybinding remote normalizedKeys))
                  (baseToByKeybinding x (map_option (\<lambda>b. byKeybinding b normalizedKeys) base)
                     (byKeybinding local normalizedKeys))
                  (baseToByKeybinding x (map_option (\<lambda>b. byKeybinding b normalizedKeys) base)
                     (byKeybinding remote normalizedKeys))))
       \<and> (\<not> (hasLocalForwarded keybindingsMergeResult \<and> hasRemoteForwarded keybindingsMergeResult)
          \<longrightarrow> mr_conflicts keybindingsMergeResult = [])
       \<and> (mr_conflicts keybindingsMergeResult = []
          \<longrightarrow> \<not> someKeyInConflict normalizedKeys (mr_conflicts keybindingsMergeResult) cmd keybindings
            \<and> snd (assemble x normalizedKeys (mr_conflicts keybindingsMergeResult) remoteByCommand
                     cmr eol content) = ms_conflicts cmr)
       \<and> (someKeyInConflict normalizedKeys (mr_conflicts keybindingsMergeResult) cmd keybindings
          \<longleftrightarrow> (\<exists>kb \<in> set keybindings. command kb \<noteq> CHR ''-'' # cmd
                 \<and> normalizedKeys (key kb) \<in> set (mr_conflicts keybindingsMergeResult)))
       \<and> (cmd \<notin> set conflicts
            \<and> someKeyInConflict normalizedKeys (mr_conflicts keybindingsMergeResult) cmd
                 (getBang remoteByCommand cmd)
          \<longrightarrow> stepAdded x normalizedKeys (mr_conflicts keybindingsMergeResult) remoteByCommand
                 eol cmd (content, conflicts) = (content, set_add cmd conflicts)
            \<and> stepUpdated x normalizedKeys (mr_conflicts keybindingsMergeResult) remoteByCommand
                 eol cmd (content, conflicts) = (content, set_add cmd conflicts))
       \<and> (cmd \<notin> set conflicts
            \<and> \<not> someKeyInConflict normalizedKeys (mr_conflicts keybindingsMergeResult) cmd
                   (getBang remoteByCommand cmd)
          \<longrightarrow> snd (stepAdded x normalizedKeys (mr_conflicts keybindingsMergeResult)
                     remoteByCommand eol cmd (content, conflicts)) = conflicts
            \<and> snd (stepUpdated x normalizedKeys (mr_conflicts keybindingsMergeResult)
                     remoteByCommand eol cmd (content, conflicts)) = conflicts)
       \<and> ((cmd \<in> set (ms_added cmr) \<or> cmd \<in> set (ms_updated cmr))
            \<and> someKeyInConflict normalizedKeys (mr_conflicts keybindingsMergeResult) cmd
                 (getBang remoteByCommand cmd)
          \<longrightarrow> cmd \<in> set (snd (assemble x normalizedKeys (mr_conflicts keybindingsMergeResult)
                                 remoteByCommand cmr eol content)))
       \<and> (local = parse x localContent \<and> remote = parse x remoteContent
            \<and> base = parseBase x baseContent
            \<and> hasLocalForwarded keybindingsMergeResult \<and> hasRemoteForwarded keybindingsMergeResult
            \<and> (cmd \<in> set (ms_added (commandsMergeResult x local remote base normalizedKeys))
                 \<or> cmd \<in> set (ms_updated (commandsMergeResult x local remote base normalizedKeys)))
            \<and> someKeyInConflict normalizedKeys (mr_conflicts keybindingsMergeResult) cmd
                 (getBang (byCommand remote) cmd)
          \<longrightarrow> hasConflicts (merge x localContent remoteContent baseContent normalizedKeys))"
proof -
  have c1: "hasLocalForwarded keybindingsMergeResult \<and> hasRemoteForwarded keybindingsMergeResult
          \<longrightarrow> mr_conflicts keybindingsMergeResult =
                ms_conflicts (computeMergeResult
                  (compareByKeybinding x (byKeybinding local normalizedKeys)
                     (byKeybinding remote normalizedKeys))
                  (baseToByKeybinding x (map_option (\<lambda>b. byKeybinding b normalizedKeys) base)
                     (byKeybinding local normalizedKeys))
                  (baseToByKeybinding x (map_option (\<lambda>b. byKeybinding b normalizedKeys) base)
                     (byKeybinding remote normalizedKeys)))"
    unfolding assms computeMergeResultByKeybinding_def Let_def
    by (simp split: if_splits)
  have c2: "\<not> (hasLocalForwarded keybindingsMergeResult \<and> hasRemoteForwarded keybindingsMergeResult)
          \<longrightarrow> mr_conflicts keybindingsMergeResult = []"
    unfolding assms computeMergeResultByKeybinding_def Let_def
    by (simp split: if_splits)
  have c3: "mr_conflicts keybindingsMergeResult = []
          \<longrightarrow> \<not> someKeyInConflict normalizedKeys (mr_conflicts keybindingsMergeResult) cmd keybindings
            \<and> snd (assemble x normalizedKeys (mr_conflicts keybindingsMergeResult) remoteByCommand
                     cmr eol content) = ms_conflicts cmr"
    by (simp add: someKeyInConflict_empty assemble_no_keybindingConflicts)
  have c4: "someKeyInConflict normalizedKeys (mr_conflicts keybindingsMergeResult) cmd keybindings
          \<longleftrightarrow> (\<exists>kb \<in> set keybindings. command kb \<noteq> CHR ''-'' # cmd
                 \<and> normalizedKeys (key kb) \<in> set (mr_conflicts keybindingsMergeResult))"
    by (rule someKeyInConflict_iff)
  have c5: "cmd \<notin> set conflicts
            \<and> someKeyInConflict normalizedKeys (mr_conflicts keybindingsMergeResult) cmd
                 (getBang remoteByCommand cmd)
          \<longrightarrow> stepAdded x normalizedKeys (mr_conflicts keybindingsMergeResult) remoteByCommand
                 eol cmd (content, conflicts) = (content, set_add cmd conflicts)
            \<and> stepUpdated x normalizedKeys (mr_conflicts keybindingsMergeResult) remoteByCommand
                 eol cmd (content, conflicts) = (content, set_add cmd conflicts)"
    by (simp add: Let_def)
  have c6: "cmd \<notin> set conflicts
            \<and> \<not> someKeyInConflict normalizedKeys (mr_conflicts keybindingsMergeResult) cmd
                   (getBang remoteByCommand cmd)
          \<longrightarrow> snd (stepAdded x normalizedKeys (mr_conflicts keybindingsMergeResult)
                     remoteByCommand eol cmd (content, conflicts)) = conflicts
            \<and> snd (stepUpdated x normalizedKeys (mr_conflicts keybindingsMergeResult)
                     remoteByCommand eol cmd (content, conflicts)) = conflicts"
    by (simp add: Let_def)
  have c7: "(cmd \<in> set (ms_added cmr) \<or> cmd \<in> set (ms_updated cmr))
            \<and> someKeyInConflict normalizedKeys (mr_conflicts keybindingsMergeResult) cmd
                 (getBang remoteByCommand cmd)
          \<longrightarrow> cmd \<in> set (snd (assemble x normalizedKeys (mr_conflicts keybindingsMergeResult)
                                 remoteByCommand cmr eol content))"
    using assemble_escalates by blast
  have c8: "local = parse x localContent \<and> remote = parse x remoteContent
            \<and> base = parseBase x baseContent
            \<and> hasLocalForwarded keybindingsMergeResult \<and> hasRemoteForwarded keybindingsMergeResult
            \<and> (cmd \<in> set (ms_added (commandsMergeResult x local remote base normalizedKeys))
                 \<or> cmd \<in> set (ms_updated (commandsMergeResult x local remote base normalizedKeys)))
            \<and> someKeyInConflict normalizedKeys (mr_conflicts keybindingsMergeResult) cmd
                 (getBang (byCommand remote) cmd)
          \<longrightarrow> hasConflicts (merge x localContent remoteContent baseContent normalizedKeys)"
  proof (intro impI, elim conjE)
    assume l: "local = parse x localContent" and r: "remote = parse x remoteContent"
      and b: "base = parseBase x baseContent"
      and f: "hasLocalForwarded keybindingsMergeResult" "hasRemoteForwarded keybindingsMergeResult"
      and c: "cmd \<in> set (ms_added (commandsMergeResult x local remote base normalizedKeys))
                 \<or> cmd \<in> set (ms_updated (commandsMergeResult x local remote base normalizedKeys))"
      and g: "someKeyInConflict normalizedKeys (mr_conflicts keybindingsMergeResult) cmd
                 (getBang (byCommand remote) cmd)"
    show "hasConflicts (merge x localContent remoteContent baseContent normalizedKeys)"
      by (rule merge_escalated [where cmd = cmd]) (use f c g in \<open>simp_all only: assms l r b\<close>)
  qed
  from c1 c2 c3 c4 c5 c6 c7 c8 show ?thesis by (intro conjI)
qed

theorem guard_consults_keybinding_conflicts_witness:
  "hasLocalForwarded (computeMergeResultByKeybinding textExt [binding ''ctrl+k'' ''open'']
      [binding ''ctrl+k'' ''close''] (Some [binding ''ctrl+k'' ''save'']) identityKeys)
   \<and> hasRemoteForwarded (computeMergeResultByKeybinding textExt [binding ''ctrl+k'' ''open'']
      [binding ''ctrl+k'' ''close''] (Some [binding ''ctrl+k'' ''save'']) identityKeys)
   \<and> mr_conflicts (computeMergeResultByKeybinding textExt [binding ''ctrl+k'' ''open'']
      [binding ''ctrl+k'' ''close''] (Some [binding ''ctrl+k'' ''save'']) identityKeys)
      = ms_conflicts (computeMergeResult
          (compareByKeybinding textExt (byKeybinding [binding ''ctrl+k'' ''open''] identityKeys)
             (byKeybinding [binding ''ctrl+k'' ''close''] identityKeys))
          (baseToByKeybinding textExt
             (map_option (\<lambda>b. byKeybinding b identityKeys) (Some [binding ''ctrl+k'' ''save'']))
             (byKeybinding [binding ''ctrl+k'' ''open''] identityKeys))
          (baseToByKeybinding textExt
             (map_option (\<lambda>b. byKeybinding b identityKeys) (Some [binding ''ctrl+k'' ''save'']))
             (byKeybinding [binding ''ctrl+k'' ''close''] identityKeys)))
   \<and> mr_conflicts (computeMergeResultByKeybinding textExt [binding ''ctrl+k'' ''open'']
      [binding ''ctrl+k'' ''close''] (Some [binding ''ctrl+k'' ''save'']) identityKeys)
      = [Some ''ctrl+k'']
   \<and> someKeyInConflict identityKeys [Some ''ctrl+k''] ''close''
        (getBang (byCommand [binding ''ctrl+k'' ''close'']) ''close'')
   \<and> stepAdded textExt identityKeys [Some ''ctrl+k''] (byCommand [binding ''ctrl+k'' ''close''])
        [CHR 0x0A] ''close'' (render [binding ''ctrl+k'' ''open''], [])
      = (render [binding ''ctrl+k'' ''open''], [''close''])
   \<and> ''close'' \<in> set (snd (assemble textExt identityKeys [Some ''ctrl+k'']
        (byCommand [binding ''ctrl+k'' ''close''])
        (commandsMergeResult textExt [binding ''ctrl+k'' ''open''] [binding ''ctrl+k'' ''close'']
           (Some [binding ''ctrl+k'' ''save'']) identityKeys)
        [CHR 0x0A] (render [binding ''ctrl+k'' ''open''])))
   \<and> hasConflicts (merge textExt (render [binding ''ctrl+k'' ''open''])
        (render [binding ''ctrl+k'' ''close'']) (Some (render [binding ''ctrl+k'' ''save'']))
        identityKeys)
   \<and> mr_conflicts (computeMergeResultByKeybinding textExt
        [binding ''ctrl+s'' ''save'', binding ''ctrl+o'' ''open'']
        [binding ''ctrl+s'' ''save'', binding ''ctrl+w'' ''close'']
        (Some [binding ''ctrl+s'' ''save'']) identityKeys) = []
   \<and> \<not> someKeyInConflict identityKeys
         (mr_conflicts (computeMergeResultByKeybinding textExt
            [binding ''ctrl+s'' ''save'', binding ''ctrl+o'' ''open'']
            [binding ''ctrl+s'' ''save'', binding ''ctrl+w'' ''close'']
            (Some [binding ''ctrl+s'' ''save'']) identityKeys))
         ''close'' [binding ''ctrl+w'' ''close'']
   \<and> snd (assemble textExt identityKeys
         (mr_conflicts (computeMergeResultByKeybinding textExt
            [binding ''ctrl+s'' ''save'', binding ''ctrl+o'' ''open'']
            [binding ''ctrl+s'' ''save'', binding ''ctrl+w'' ''close'']
            (Some [binding ''ctrl+s'' ''save'']) identityKeys))
         (byCommand [binding ''ctrl+s'' ''save'', binding ''ctrl+w'' ''close''])
         \<lparr>ms_added = [''close''], ms_removed = [], ms_updated = [], ms_conflicts = []\<rparr>
         [CHR 0x0A] (render [binding ''ctrl+s'' ''save'', binding ''ctrl+o'' ''open''])) = []"
proof -
  let ?l1 = "[binding ''ctrl+k'' ''open'']"
  let ?r1 = "[binding ''ctrl+k'' ''close'']"
  let ?b1 = "[binding ''ctrl+k'' ''save'']"
  let ?kmr1 = "computeMergeResultByKeybinding textExt ?l1 ?r1 (Some ?b1) identityKeys"
  let ?cmr1 = "commandsMergeResult textExt ?l1 ?r1 (Some ?b1) identityKeys"
  let ?l2 = "[binding ''ctrl+s'' ''save'', binding ''ctrl+o'' ''open'']"
  let ?r2 = "[binding ''ctrl+s'' ''save'', binding ''ctrl+w'' ''close'']"
  let ?b2 = "[binding ''ctrl+s'' ''save'']"
  let ?kmr2 = "computeMergeResultByKeybinding textExt ?l2 ?r2 (Some ?b2) identityKeys"
  have p: "parse textExt = parseText" by (simp add: textExt_def)
  have l: "?l1 = parse textExt (render ?l1)" and r: "?r1 = parse textExt (render ?r1)"
    by (simp_all only: p parseText_render)
  have b: "Some ?b1 = parseBase textExt (Some (render ?b1))"
    by (simp add: parseBase_def render_not_empty p parseText_render)
  have f1: "hasLocalForwarded ?kmr1" "hasRemoteForwarded ?kmr1"
    by (simp_all add: eval_defs merge_eval_defs)
  have k1: "mr_conflicts ?kmr1 = [Some ''ctrl+k'']"
    by (simp add: eval_defs merge_eval_defs)
  have a1: "''close'' \<in> set (ms_added ?cmr1)"
    by (simp add: eval_defs merge_eval_defs)
  have g1: "someKeyInConflict identityKeys (mr_conflicts ?kmr1) ''close''
        (getBang (byCommand ?r1) ''close'')"
    unfolding k1 by (simp add: eval_defs someKeyInConflict_def)
  have n1: "''close'' \<notin> set ([] :: string list)" by simp
  have e2: "mr_conflicts ?kmr2 = []"
    by (simp add: eval_defs merge_eval_defs)
  note T1 = guard_consults_keybinding_conflicts [where keybindingsMergeResult = ?kmr1
      and x = textExt and local = ?l1 and remote = ?r1 and base = "Some ?b1"
      and normalizedKeys = identityKeys and cmd = "''close''" and conflicts = "[]"
      and remoteByCommand = "byCommand ?r1" and cmr = ?cmr1 and eol = "[CHR 0x0A]"
      and content = "render ?l1" and localContent = "render ?l1"
      and remoteContent = "render ?r1" and baseContent = "Some (render ?b1)", OF refl]
  from T1 [THEN conjunct1] f1
  have c1: "mr_conflicts ?kmr1 = ms_conflicts (computeMergeResult
          (compareByKeybinding textExt (byKeybinding ?l1 identityKeys)
             (byKeybinding ?r1 identityKeys))
          (baseToByKeybinding textExt
             (map_option (\<lambda>b. byKeybinding b identityKeys) (Some ?b1))
             (byKeybinding ?l1 identityKeys))
          (baseToByKeybinding textExt
             (map_option (\<lambda>b. byKeybinding b identityKeys) (Some ?b1))
             (byKeybinding ?r1 identityKeys)))"
    by blast
  from T1 [THEN conjunct2, THEN conjunct2, THEN conjunct2, THEN conjunct2, THEN conjunct1] n1 g1
  have "stepAdded textExt identityKeys (mr_conflicts ?kmr1) (byCommand ?r1)
        [CHR 0x0A] ''close'' (render ?l1, []) = (render ?l1, set_add ''close'' [])"
    by blast
  then have c5: "stepAdded textExt identityKeys [Some ''ctrl+k''] (byCommand ?r1)
        [CHR 0x0A] ''close'' (render ?l1, []) = (render ?l1, [''close''])"
    by (simp add: k1 set_add_def)
  from T1 [THEN conjunct2, THEN conjunct2, THEN conjunct2, THEN conjunct2, THEN conjunct2,
      THEN conjunct2, THEN conjunct1] a1 g1
  have "''close'' \<in> set (snd (assemble textExt identityKeys (mr_conflicts ?kmr1)
        (byCommand ?r1) ?cmr1 [CHR 0x0A] (render ?l1)))"
    by blast
  then have c7: "''close'' \<in> set (snd (assemble textExt identityKeys [Some ''ctrl+k'']
        (byCommand ?r1) ?cmr1 [CHR 0x0A] (render ?l1)))"
    by (simp only: k1)
  from T1 [THEN conjunct2, THEN conjunct2, THEN conjunct2, THEN conjunct2, THEN conjunct2,
      THEN conjunct2, THEN conjunct2] l r b f1 a1 g1
  have c8: "hasConflicts (merge textExt (render ?l1) (render ?r1) (Some (render ?b1)) identityKeys)"
    by blast
  from guard_consults_keybinding_conflicts [where keybindingsMergeResult = ?kmr2
      and x = textExt and local = ?l2 and remote = ?r2 and base = "Some ?b2"
      and normalizedKeys = identityKeys and cmd = "''close''"
      and keybindings = "[binding ''ctrl+w'' ''close'']"
      and remoteByCommand = "byCommand ?r2"
      and cmr = "\<lparr>ms_added = [''close''], ms_removed = [], ms_updated = [], ms_conflicts = []\<rparr>"
      and eol = "[CHR 0x0A]" and content = "render ?l2",
      OF refl, THEN conjunct2, THEN conjunct2, THEN conjunct1] e2
  have c3: "\<not> someKeyInConflict identityKeys (mr_conflicts ?kmr2) ''close'' [binding ''ctrl+w'' ''close'']
    \<and> snd (assemble textExt identityKeys (mr_conflicts ?kmr2) (byCommand ?r2)
         \<lparr>ms_added = [''close''], ms_removed = [], ms_updated = [], ms_conflicts = []\<rparr>
         [CHR 0x0A] (render ?l2)) = []"
    by simp
  have g1': "someKeyInConflict identityKeys [Some ''ctrl+k''] ''close''
        (getBang (byCommand ?r1) ''close'')"
    using g1 by (simp only: k1)
  from f1 c1 k1 g1' c5 c7 c8 e2 c3 show ?thesis by blast
qed

subsection \<open>Conflict markers\<close>

text \<open>
  C5, as claimed: when \<^verbatim>\<open>hasConflicts\<close> is false no conflict marker is present in the
  output. This fails on a document that holds a marker line itself, here inside a block
  comment: merged with itself it is returned unchanged, without conflicts, and with the
  marker line.
\<close>

theorem marker_in_unconflicted_output:
  "\<not> hasConflicts (merge emptyExt commentedText commentedText (Some commentedText) identityKeys)
   \<and> mergeContent (merge emptyExt commentedText commentedText (Some commentedText) identityKeys)
       = commentedText
   \<and> sublist ([CHR 0x0A] @ ''<<<<<<< local'' @ [CHR 0x0A])
       (mergeContent (merge emptyExt commentedText commentedText (Some commentedText) identityKeys))"
proof -
  have "sublist ([CHR 0x0A] @ ''<<<<<<< local'' @ [CHR 0x0A])
          (''/*'' @ ([CHR 0x0A] @ ''<<<<<<< local'' @ [CHR 0x0A]) @ (''*/'' @ [CHR 0x0A] @ ''[]''))"
    by (rule sublist_appendI)
  then have "sublist ([CHR 0x0A] @ ''<<<<<<< local'' @ [CHR 0x0A]) commentedText"
    by (simp add: commentedText_def)
  then show ?thesis
    by (simp add: merge_no_change [OF reflexiveComparators_emptyExt])
qed

text \<open>
  C5, amended. \<^verbatim>\<open>merge\<close> returns \<^verbatim>\<open>hasConflicts = true\<close> exactly when the command-level
  conflicts set is non-empty at the end of the output assembly, and then \<^verbatim>\<open>mergeContent\<close> is
  the line \<open><<<<<<< local\<close>, the edited local text, a line \<open>=======\<close>, the remote input
  text and a final \<open>>>>>>>> remote\<close>, separated by the end-of-line string. When
  \<^verbatim>\<open>hasConflicts\<close> is false \<^verbatim>\<open>merge\<close> adds no marker: \<^verbatim>\<open>mergeContent\<close> is the edited local
  text itself or, on the fast paths, the local or the remote input.
\<close>

theorem merge_conflict_markers:
  assumes "keybindingsMergeResult = computeMergeResultByKeybinding x (parse x localContent)
             (parse x remoteContent) (parseBase x baseContent) normalizedKeys"
    and "assemble x normalizedKeys (mr_conflicts keybindingsMergeResult)
           (byCommand (parse x remoteContent))
           (commandsMergeResult x (parse x localContent) (parse x remoteContent)
             (parseBase x baseContent) normalizedKeys)
           (getEol x localContent) localContent = (content, conflicts)"
    and "eol = getEol x localContent"
    and "result = merge x localContent remoteContent baseContent normalizedKeys"
  shows "(hasLocalForwarded keybindingsMergeResult \<and> hasRemoteForwarded keybindingsMergeResult
          \<longrightarrow> hasConflicts result = (conflicts \<noteq> [])
            \<and> (conflicts \<noteq> [] \<longrightarrow>
                 mergeContent result =
                   ''<<<<<<< local'' @ eol @ content @ eol @ ''======='' @ eol @ remoteContent
                     @ eol @ ''>>>>>>> remote'')
            \<and> (conflicts = [] \<longrightarrow> mergeContent result = content))
       \<and> (\<not> (hasLocalForwarded keybindingsMergeResult \<and> hasRemoteForwarded keybindingsMergeResult)
          \<longrightarrow> \<not> hasConflicts result
            \<and> (mergeContent result = localContent \<or> mergeContent result = remoteContent))"
proof (intro conjI impI)
  assume f: "hasLocalForwarded keybindingsMergeResult \<and> hasRemoteForwarded keybindingsMergeResult"
  have m: "result =
     \<lparr>mergeContent =
        (if conflicts \<noteq> []
         then ''<<<<<<< local'' @ getEol x localContent @ content @ getEol x localContent
                @ ''======='' @ getEol x localContent @ remoteContent
                @ getEol x localContent @ ''>>>>>>> remote''
         else content),
      hasChanges = True, hasConflicts = (conflicts \<noteq> [])\<rparr>"
    unfolding assms(4)
    by (rule merge_both_forwarded) (use f assms(2) in \<open>simp_all only: assms(1)\<close>)
  show "hasConflicts result = (conflicts \<noteq> [])" by (simp add: m)
  show "mergeContent result = content" if "conflicts = []" using that by (simp add: m)
  show "mergeContent result =
          ''<<<<<<< local'' @ eol @ content @ eol @ ''======='' @ eol @ remoteContent
            @ eol @ ''>>>>>>> remote''" if "conflicts \<noteq> []"
    using that by (simp add: m assms(3))
next
  assume n: "\<not> (hasLocalForwarded keybindingsMergeResult \<and> hasRemoteForwarded keybindingsMergeResult)"
  then show "\<not> hasConflicts result"
    unfolding assms(4) assms(1) by (auto simp: merge_def Let_def)
  from n show "mergeContent result = localContent \<or> mergeContent result = remoteContent"
    unfolding assms(4) assms(1) by (auto simp: merge_def Let_def)
qed

theorem merge_conflict_markers_witness:
  "hasConflicts (merge textExt (render [binding ''ctrl+k'' ''open''])
        (render [binding ''ctrl+k'' ''close'']) (Some (render [binding ''ctrl+k'' ''save'']))
        identityKeys)
   \<and> mergeContent (merge textExt (render [binding ''ctrl+k'' ''open''])
        (render [binding ''ctrl+k'' ''close'']) (Some (render [binding ''ctrl+k'' ''save'']))
        identityKeys)
      = ''<<<<<<< local'' @ [CHR 0x0A] @ render [binding ''ctrl+k'' ''open''] @ [CHR 0x0A]
          @ ''======='' @ [CHR 0x0A] @ render [binding ''ctrl+k'' ''close''] @ [CHR 0x0A]
          @ ''>>>>>>> remote''
   \<and> \<not> hasConflicts (merge textExt
        (render [binding ''ctrl+s'' ''save'', binding ''ctrl+o'' ''open''])
        (render [binding ''ctrl+s'' ''save'', binding ''ctrl+w'' ''close''])
        (Some (render [binding ''ctrl+s'' ''save''])) identityKeys)
   \<and> mergeContent (merge textExt
        (render [binding ''ctrl+s'' ''save'', binding ''ctrl+o'' ''open''])
        (render [binding ''ctrl+s'' ''save'', binding ''ctrl+w'' ''close''])
        (Some (render [binding ''ctrl+s'' ''save''])) identityKeys)
      = render [binding ''ctrl+s'' ''save'', binding ''ctrl+o'' ''open'',
                binding ''ctrl+w'' ''close'']
   \<and> \<not> hasConflicts (merge textExt (render [binding ''ctrl+s'' ''save''])
        (render [binding ''ctrl+s'' ''save'']) None identityKeys)
   \<and> mergeContent (merge textExt (render [binding ''ctrl+s'' ''save''])
        (render [binding ''ctrl+s'' ''save'']) None identityKeys)
      = render [binding ''ctrl+s'' ''save'']"
proof -
  have p: "parse textExt = parseText" and e: "getEol textExt = (\<lambda>c. [CHR 0x0A])"
    and ed: "edit textExt = editText"
    by (simp_all add: textExt_def)
  have pb: "parseBase textExt (Some (render b)) = Some b" for b
    by (simp add: parseBase_def render_not_empty p parseText_render)
  have pn: "parseBase textExt None = None"
    by (simp add: parseBase_def)
  let ?l1 = "[binding ''ctrl+k'' ''open'']"
  let ?r1 = "[binding ''ctrl+k'' ''close'']"
  let ?b1 = "[binding ''ctrl+k'' ''save'']"
  let ?kmr1 = "computeMergeResultByKeybinding textExt ?l1 ?r1 (Some ?b1) identityKeys"
  have kmr1: "?kmr1 = \<lparr>hasLocalForwarded = True, hasRemoteForwarded = True, mr_added = [],
      mr_removed = [], mr_updated = [], mr_conflicts = [Some ''ctrl+k'']\<rparr>"
    by (simp add: eval_defs merge_eval_defs)
  have cmr1: "commandsMergeResult textExt ?l1 ?r1 (Some ?b1) identityKeys
      = \<lparr>ms_added = [''close''], ms_removed = [''save''], ms_updated = [], ms_conflicts = []\<rparr>"
    by (simp add: eval_defs merge_eval_defs)
  have a1: "assemble textExt identityKeys (mr_conflicts ?kmr1) (byCommand ?r1)
        (commandsMergeResult textExt ?l1 ?r1 (Some ?b1) identityKeys)
        [CHR 0x0A] (render ?l1) = (render ?l1, [''close''])"
    unfolding kmr1 cmr1
    by (simp add: assemble_def stepRemoved_def removeKeybindings_def removeLoop_def
        hasCommand_def someKeyInConflict_def p parseText_render Let_def eval_defs)
  let ?l2 = "[binding ''ctrl+s'' ''save'', binding ''ctrl+o'' ''open'']"
  let ?r2 = "[binding ''ctrl+s'' ''save'', binding ''ctrl+w'' ''close'']"
  let ?b2 = "[binding ''ctrl+s'' ''save'']"
  let ?kmr2 = "computeMergeResultByKeybinding textExt ?l2 ?r2 (Some ?b2) identityKeys"
  have kmr2: "?kmr2 = \<lparr>hasLocalForwarded = True, hasRemoteForwarded = True,
      mr_added = [Some ''ctrl+w''], mr_removed = [], mr_updated = [], mr_conflicts = []\<rparr>"
    by (simp add: eval_defs merge_eval_defs)
  have cmr2: "commandsMergeResult textExt ?l2 ?r2 (Some ?b2) identityKeys
      = \<lparr>ms_added = [''close''], ms_removed = [], ms_updated = [], ms_conflicts = []\<rparr>"
    by (simp add: eval_defs merge_eval_defs)
  have a2: "assemble textExt identityKeys (mr_conflicts ?kmr2) (byCommand ?r2)
        (commandsMergeResult textExt ?l2 ?r2 (Some ?b2) identityKeys)
        [CHR 0x0A] (render ?l2)
      = (render [binding ''ctrl+s'' ''save'', binding ''ctrl+o'' ''open'',
                 binding ''ctrl+w'' ''close''], [])"
    unfolding kmr2 cmr2
    by (simp add: assemble_def someKeyInConflict_def addKeybindings_def ed editText_def
        editList_def parseText_render Let_def eval_defs)
  let ?kmr3 = "computeMergeResultByKeybinding textExt ?b2 ?b2 None identityKeys"
  have kmr3: "\<not> (hasLocalForwarded ?kmr3 \<and> hasRemoteForwarded ?kmr3)"
    by (simp add: eval_defs merge_eval_defs)
  obtain c3 cs3 where a3: "assemble textExt identityKeys (mr_conflicts ?kmr3) (byCommand ?b2)
        (commandsMergeResult textExt ?b2 ?b2 None identityKeys)
        [CHR 0x0A] (render ?b2) = (c3, cs3)"
    by (cases "assemble textExt identityKeys (mr_conflicts ?kmr3) (byCommand ?b2)
        (commandsMergeResult textExt ?b2 ?b2 None identityKeys)
        [CHR 0x0A] (render ?b2)")
  have k1: "?kmr1 = computeMergeResultByKeybinding textExt (parse textExt (render ?l1))
      (parse textExt (render ?r1)) (parseBase textExt (Some (render ?b1))) identityKeys"
    by (simp only: p pb parseText_render)
  have a1': "assemble textExt identityKeys (mr_conflicts ?kmr1)
        (byCommand (parse textExt (render ?r1)))
        (commandsMergeResult textExt (parse textExt (render ?l1)) (parse textExt (render ?r1))
           (parseBase textExt (Some (render ?b1))) identityKeys)
        (getEol textExt (render ?l1)) (render ?l1) = (render ?l1, [''close''])"
    using a1 by (simp only: p pb e parseText_render)
  have e1: "[CHR 0x0A] = getEol textExt (render ?l1)"
    by (simp only: e)
  note T1 = merge_conflict_markers [OF k1 a1' e1 refl]
  have f1: "hasLocalForwarded ?kmr1 \<and> hasRemoteForwarded ?kmr1"
    by (simp add: kmr1)
  have t1: "hasConflicts (merge textExt (render ?l1) (render ?r1) (Some (render ?b1)) identityKeys)
    \<and> mergeContent (merge textExt (render ?l1) (render ?r1) (Some (render ?b1)) identityKeys)
      = ''<<<<<<< local'' @ [CHR 0x0A] @ render ?l1 @ [CHR 0x0A]
          @ ''======='' @ [CHR 0x0A] @ render ?r1 @ [CHR 0x0A] @ ''>>>>>>> remote''"
    using T1 f1 by simp
  have k2: "?kmr2 = computeMergeResultByKeybinding textExt (parse textExt (render ?l2))
      (parse textExt (render ?r2)) (parseBase textExt (Some (render ?b2))) identityKeys"
    by (simp only: p pb parseText_render)
  have a2': "assemble textExt identityKeys (mr_conflicts ?kmr2)
        (byCommand (parse textExt (render ?r2)))
        (commandsMergeResult textExt (parse textExt (render ?l2)) (parse textExt (render ?r2))
           (parseBase textExt (Some (render ?b2))) identityKeys)
        (getEol textExt (render ?l2)) (render ?l2)
      = (render [binding ''ctrl+s'' ''save'', binding ''ctrl+o'' ''open'',
                 binding ''ctrl+w'' ''close''], [])"
    using a2 by (simp only: p pb e parseText_render)
  have e2: "[CHR 0x0A] = getEol textExt (render ?l2)"
    by (simp only: e)
  note T2 = merge_conflict_markers [OF k2 a2' e2 refl]
  have f2: "hasLocalForwarded ?kmr2 \<and> hasRemoteForwarded ?kmr2"
    by (simp add: kmr2)
  have t2: "\<not> hasConflicts (merge textExt (render ?l2) (render ?r2) (Some (render ?b2)) identityKeys)
    \<and> mergeContent (merge textExt (render ?l2) (render ?r2) (Some (render ?b2)) identityKeys)
      = render [binding ''ctrl+s'' ''save'', binding ''ctrl+o'' ''open'',
                binding ''ctrl+w'' ''close'']"
    using T2 f2 by simp
  have k3: "?kmr3 = computeMergeResultByKeybinding textExt (parse textExt (render ?b2))
      (parse textExt (render ?b2)) (parseBase textExt None) identityKeys"
    by (simp only: p pn parseText_render)
  have a3': "assemble textExt identityKeys (mr_conflicts ?kmr3)
        (byCommand (parse textExt (render ?b2)))
        (commandsMergeResult textExt (parse textExt (render ?b2)) (parse textExt (render ?b2))
           (parseBase textExt None) identityKeys)
        (getEol textExt (render ?b2)) (render ?b2) = (c3, cs3)"
    using a3 by (simp only: p pn e parseText_render)
  have e3: "[CHR 0x0A] = getEol textExt (render ?b2)"
    by (simp only: e)
  note T3 = merge_conflict_markers [OF k3 a3' e3 refl]
  have t3: "\<not> hasConflicts (merge textExt (render ?b2) (render ?b2) None identityKeys)
    \<and> mergeContent (merge textExt (render ?b2) (render ?b2) None identityKeys) = render ?b2"
    using T3 kmr3 by simp
  from t1 t2 t3 show ?thesis by blast
qed

subsection \<open>Lookups in the loops of merge\<close>

lemma fold_invariant_mem:
  assumes "\<And>k st. k \<in> set ks \<Longrightarrow> I st \<Longrightarrow> I (f k st)" and "I st"
  shows "I (fold f ks st)"
  using assms by (induction ks arbitrary: st) simp_all

text \<open>
  \<^verbatim>\<open>computeMergeResult\<close> takes its added and updated keys from the comparison of base and
  remote.
\<close>

lemma computeMergeResult_from_remote:
  "set (ms_added (computeMergeResult l2r b2l b2r)) \<subseteq> set (added b2r)
   \<and> set (ms_updated (computeMergeResult l2r b2l b2r)) \<subseteq> set (updated b2r)"
proof -
  let ?I = "\<lambda>st. set (ms_added st) \<subseteq> set (added b2r) \<and> set (ms_updated st) \<subseteq> set (updated b2r)"
  let ?st0 = "\<lparr>ms_added = [], ms_removed = [], ms_updated = [], ms_conflicts = []\<rparr> :: 'a MergeSets"
  let ?st1 = "fold (stepRemovedInLocal b2r) (removed b2l) ?st0"
  let ?st2 = "fold (stepRemovedInRemote b2l) (removed b2r) ?st1"
  let ?st3 = "fold (stepAddedInLocal l2r b2r) (added b2l) ?st2"
  let ?st4 = "fold (stepAddedInRemote l2r b2l) (added b2r) ?st3"
  let ?st5 = "fold (stepUpdatedInLocal l2r b2r) (updated b2l) ?st4"
  let ?st6 = "fold (stepUpdatedInRemote l2r b2l) (updated b2r) ?st5"
  have "?I ?st0" by simp
  then have "?I ?st1"
    by (rule fold_invariant_mem [where I = ?I, rotated]) (simp add: stepRemovedInLocal_def)
  then have "?I ?st2"
    by (rule fold_invariant_mem [where I = ?I, rotated]) (simp add: stepRemovedInRemote_def)
  then have "?I ?st3"
    by (rule fold_invariant_mem [where I = ?I, rotated]) (simp add: stepAddedInLocal_def)
  then have "?I ?st4"
    by (rule fold_invariant_mem [where I = ?I, rotated])
      (simp add: stepAddedInRemote_def set_set_add)
  then have "?I ?st5"
    by (rule fold_invariant_mem [where I = ?I, rotated]) (simp add: stepUpdatedInLocal_def)
  then have "?I ?st6"
    by (rule fold_invariant_mem [where I = ?I, rotated])
      (simp add: stepUpdatedInRemote_def set_set_add)
  then show ?thesis
    by (simp add: computeMergeResult_def Let_def)
qed

lemma baseToByCommand_keys:
  "set (added (baseToByCommand x b m n)) \<subseteq> set (keys m)
   \<and> set (updated (baseToByCommand x b m n)) \<subseteq> set (keys m)"
  by (cases b)
    (auto simp: baseToByCommand_def allAdded_def set_toSet added_compareByCommand
      updated_compareByCommand)

text \<open>
  The lookups \<^verbatim>\<open>remoteByCommand.get(command)!\<close> of the added and updated loops of
  \<^verbatim>\<open>merge\<close> find an entry.
\<close>

lemma getBang_merge_loops:
  assumes "cmd \<in> set (ms_added (commandsMergeResult x local remote base n))
           \<or> cmd \<in> set (ms_updated (commandsMergeResult x local remote base n))"
  shows "\<exists>v. map_of (byCommand remote) cmd = Some v"
proof -
  let ?b2r = "baseToByCommand x (map_option byCommand base) (byCommand remote) n"
  from assms computeMergeResult_from_remote
    [of "compareByCommand x (byCommand local) (byCommand remote) n"
        "baseToByCommand x (map_option byCommand base) (byCommand local) n" ?b2r]
  have "cmd \<in> set (added ?b2r) \<or> cmd \<in> set (updated ?b2r)"
    by (auto simp: commandsMergeResult_def Let_def)
  with baseToByCommand_keys [of x "map_option byCommand base" "byCommand remote" n]
  have "cmd \<in> set (keys (byCommand remote))" by auto
  then show ?thesis by (rule map_of_keys)
qed

subsection \<open>The content rewriter under the editor's contract\<close>

lemma editContract_delete:
  "editContract x \<Longrightarrow> i < length (parse x content)
     \<Longrightarrow> parse x (edit x content eol [int i] None) = deleteAt i (parse x content)"
  by (simp add: editContract_def)

lemma editContract_insert:
  "editContract x \<Longrightarrow> i \<le> length (parse x content)
     \<Longrightarrow> parse x (edit x content eol [int i] (Some kb)) = insertAt i [kb] (parse x content)"
  by (simp add: editContract_def)

lemma removeLoop_suffix:
  assumes c: "editContract x" and p: "parse x content = xs" and k: "k \<le> length xs"
  shows "parse x (fold (\<lambda>index content.
             if hasCommand cmd (xs ! index)
             then edit x content eol [int index] None else content)
           (rev [length xs - k..<length xs]) content)
         = take (length xs - k) xs @ filter (\<lambda>kb. \<not> hasCommand cmd kb) (drop (length xs - k) xs)"
  using k
proof (induction k)
  case 0
  then show ?case by (simp add: p)
next
  case (Suc k)
  let ?n = "length xs"
  let ?j = "?n - Suc k"
  let ?step = "\<lambda>index content.
             if hasCommand cmd (xs ! index)
             then edit x content eol [int index] None else content"
  let ?c' = "fold ?step (rev [?n - k..<?n]) content"
  let ?F = "filter (\<lambda>kb. \<not> hasCommand cmd kb) (drop (Suc ?j) xs)"
  from Suc.prems have j: "?j < ?n" "Suc ?j = ?n - k" by arith+
  from Suc have IH: "parse x ?c' = take (Suc ?j) xs @ ?F"
    by (simp add: j(2))
  have upt: "[?j..<?n] = ?j # [?n - k..<?n]"
    using j by (simp add: upt_conv_Cons)
  have fold: "fold ?step (rev [?j..<?n]) content = ?step ?j ?c'"
    by (simp add: upt)
  have split: "drop ?j xs = xs ! ?j # drop (Suc ?j) xs"
    using j(1) by (simp add: Cons_nth_drop_Suc)
  have tk: "take (Suc ?j) xs = take ?j xs @ [xs ! ?j]"
    using j(1) by (simp add: take_Suc_conv_app_nth)
  show ?case
  proof (cases "hasCommand cmd (xs ! ?j)")
    case True
    have len: "?j < length (parse x ?c')"
      using j(1) by (simp add: IH)
    have "parse x (?step ?j ?c') = deleteAt ?j (parse x ?c')"
      using True by (simp add: editContract_delete [OF c len])
    also have "\<dots> = take ?j xs @ ?F"
      using j(1) by (simp add: IH deleteAt_def)
    also have "\<dots> = take ?j xs @ filter (\<lambda>kb. \<not> hasCommand cmd kb) (drop ?j xs)"
      using True by (simp add: split)
    finally show ?thesis by (simp only: fold)
  next
    case False
    then have "parse x (?step ?j ?c') = take ?j xs @ [xs ! ?j] @ ?F"
      by (simp add: IH tk)
    also have "\<dots> = take ?j xs @ filter (\<lambda>kb. \<not> hasCommand cmd kb) (drop ?j xs)"
      using False by (simp add: split)
    finally show ?thesis by (simp only: fold)
  qed
qed

lemma parse_removeLoop:
  assumes "editContract x" and "parse x content = xs"
  shows "parse x (removeLoop x xs eol cmd content) = filter (\<lambda>kb. \<not> hasCommand cmd kb) xs"
  using removeLoop_suffix [OF assms, of "length xs" cmd eol]
  by (simp add: removeLoop_def)

lemma parse_removeKeybindings:
  assumes "editContract x"
  shows "parse x (removeKeybindings x content eol cmd)
         = filter (\<lambda>kb. \<not> hasCommand cmd kb) (parse x content)"
  by (simp add: removeKeybindings_def parse_removeLoop [OF assms refl])

lemma parse_insertLoop:
  assumes c: "editContract x" and l: "loc \<le> length (parse x content)"
  shows "parse x (fold (\<lambda>keybinding content. edit x content eol [int loc] (Some keybinding))
            (rev keybindings) content)
         = insertAt loc keybindings (parse x content)"
proof (induction keybindings)
  case Nil
  show ?case by (simp add: insertAt_def)
next
  case (Cons kb kbs)
  let ?c' = "fold (\<lambda>keybinding content. edit x content eol [int loc] (Some keybinding))
            (rev kbs) content"
  have len: "loc \<le> length (parse x ?c')"
    using l by (simp add: Cons.IH insertAt_def)
  have "parse x (edit x ?c' eol [int loc] (Some kb)) = insertAt loc [kb] (parse x ?c')"
    by (rule editContract_insert [OF c len])
  also have "\<dots> = insertAt loc (kb # kbs) (parse x content)"
    using l by (simp add: Cons.IH insertAt_def)
  finally show ?case by simp
qed

lemma findFirstIndex_eq:
  "findFirstIndex xs p
     = (if \<exists>a \<in> set xs. p a then int (length (takeWhile (\<lambda>a. \<not> p a) xs)) else -1)"
  by (induction xs) (simp_all add: Let_def)

lemma findFirstIndex_takeWhile:
  "\<exists>a \<in> set xs. p a \<Longrightarrow> findFirstIndex xs p = int (length (takeWhile (\<lambda>a. \<not> p a) xs))"
  by (simp add: findFirstIndex_eq)

lemma length_takeWhile_filter:
  "length (takeWhile q xs) \<le> length (filter q xs)"
  by (induction xs) auto

lemma insertAt_takeWhile:
  "insertAt (length (takeWhile q xs)) ys (filter q xs)
     = takeWhile q xs @ ys @ filter q (dropWhile q xs)"
proof -
  have "filter q xs = takeWhile q xs @ filter q (dropWhile q xs)"
    by (induction xs) auto
  then have "insertAt (length (takeWhile q xs)) ys (filter q xs)
      = insertAt (length (takeWhile q xs)) ys (takeWhile q xs @ filter q (dropWhile q xs))"
    by simp
  then show ?thesis by (simp add: insertAt_def)
qed

lemma parse_updateKeybindings:
  assumes c: "editContract x" and m: "\<exists>kb \<in> set (parse x content). hasCommand cmd kb"
  shows "parse x (updateKeybindings x content eol cmd keybindings)
         = insertAt (length (takeWhile (\<lambda>kb. \<not> hasCommand cmd kb) (parse x content))) keybindings
             (filter (\<lambda>kb. \<not> hasCommand cmd kb) (parse x content))"
proof -
  let ?xs = "parse x content"
  let ?loc = "length (takeWhile (\<lambda>kb. \<not> hasCommand cmd kb) ?xs)"
  let ?c1 = "removeLoop x ?xs eol cmd content"
  have loc: "findFirstIndex ?xs (hasCommand cmd) = int ?loc"
    using m by (rule findFirstIndex_takeWhile)
  have p1: "parse x ?c1 = filter (\<lambda>kb. \<not> hasCommand cmd kb) ?xs"
    by (rule parse_removeLoop [OF c refl])
  have "?loc \<le> length (parse x ?c1)"
    by (simp add: p1 length_takeWhile_filter)
  from parse_insertLoop [OF c this, of eol keybindings]
  show ?thesis
    by (simp add: updateKeybindings_def Let_def loc p1)
qed

lemma getBang_pushTo:
  "getBang (pushTo k v m) c = (if k = c then getBang m c @ [v] else getBang m c)"
  by (induction m) (auto simp: getBang_def)

lemma getBang_foldl_pushTo:
  "getBang (foldl (\<lambda>m kb. pushTo (g kb) kb m) m0 kbs) c
     = getBang m0 c @ filter (\<lambda>kb. g kb = c) kbs"
  by (induction kbs arbitrary: m0) (simp_all add: getBang_pushTo)

lemma getBang_byCommand:
  "getBang (byCommand keybindings) c = filter (\<lambda>kb. commandOf kb = c) keybindings"
  by (simp add: byCommand_def getBang_foldl_pushTo) (simp add: getBang_def)

lemma getBang_byKeybinding:
  "getBang (byKeybinding keybindings n) c = filter (\<lambda>kb. n (key kb) = c) keybindings"
  by (simp add: byKeybinding_def getBang_foldl_pushTo) (simp add: getBang_def)

text \<open>
  For an editor that meets its contract, and a text that holds a record of the command:
  \<^verbatim>\<open>updateKeybindings\<close> deletes from the text every record whose command is the command
  name or its negated form, and inserts the given records, in their order, at the index where
  the first deleted record was. The body of the updated loop of \<^verbatim>\<open>merge\<close>, for a command
  that is not in conflicts and that the guard does not escalate, applies it with the remote's
  records for that command, in their remote order.
\<close>

lemma stepUpdated_with_record:
  assumes "editContract x"
    and "\<exists>kb \<in> set (parse x content). hasCommand cmd kb"
    and "location = nat (findFirstIndex (parse x content) (hasCommand cmd))"
  shows "parse x (updateKeybindings x content eol cmd keybindings)
           = insertAt location keybindings
               (filter (\<lambda>kb. \<not> hasCommand cmd kb) (parse x content))
       \<and> location = length (takeWhile (\<lambda>kb. \<not> hasCommand cmd kb) (parse x content))
       \<and> hasCommand cmd (parse x content ! location)
       \<and> (cmd \<notin> set conflicts
            \<and> \<not> someKeyInConflict normalizedKeys keybindingConflicts cmd
                  (getBang (byCommand remote) cmd)
          \<longrightarrow> stepUpdated x normalizedKeys keybindingConflicts (byCommand remote) eol cmd
                 (content, conflicts)
               = (updateKeybindings x content eol cmd
                    (filter (\<lambda>kb. commandOf kb = cmd) remote), conflicts))"
proof -
  let ?xs = "parse x content"
  let ?nm = "\<lambda>kb. \<not> hasCommand cmd kb"
  have loc: "location = length (takeWhile ?nm ?xs)"
    using assms(2,3) by (simp add: findFirstIndex_takeWhile)
  have "takeWhile ?nm ?xs \<noteq> ?xs"
    using assms(2) by (simp add: takeWhile_eq_all_conv)
  then have "length (takeWhile ?nm ?xs) \<noteq> length ?xs"
    by (metis takeWhile_eq_take take_all_iff le_refl)
  with length_takeWhile_le [of ?nm ?xs] have "length (takeWhile ?nm ?xs) < length ?xs"
    by simp
  then have "\<not> ?nm (?xs ! length (takeWhile ?nm ?xs))"
    by (rule nth_length_takeWhile)
  then have hit: "hasCommand cmd (?xs ! location)"
    by (simp add: loc)
  have "parse x (updateKeybindings x content eol cmd keybindings)
           = insertAt location keybindings (filter ?nm ?xs)"
    unfolding loc by (rule parse_updateKeybindings [OF assms(1,2)])
  with loc hit show ?thesis
    by (simp add: Let_def getBang_byCommand)
qed

text \<open>
  C6. For each command in the command-level updated set, and not in conflicts, the output
  assembly is to delete from the local text every record whose command is the command name
  or its negated form, and to insert the remote's records for that command, in their remote
  order, at the index where the first deleted record was; the comments of
  \<^verbatim>\<open>updateKeybindings\<close> say the same. The code does not on this input: base binds \<open>k1\<close> to
  \<open>--x\<close> and \<open>k2\<close> to \<open>-x\<close>, local adds \<open>new\<close> at \<open>k3\<close>, and remote holds \<open>-x\<close> at
  \<open>k4\<close> and at \<open>k5\<close>. Both sides have moved forward and no key is in conflict; the
  command-level merge removes the command \<open>-x\<close> and updates the command \<open>x\<close>, whose record
  in the local text is at index 1. The removed loop, run for \<open>-x\<close>, deletes the records
  \<open>--x\<close> and \<open>-x\<close>, the second of which \<^verbatim>\<open>byCommand\<close> groups under \<open>x\<close>. Then
  \<^verbatim>\<open>updateKeybindings\<close> finds no record of \<open>x\<close>, its location is \<open>-1\<close>, and the remote's
  records, taken from the last to the first, are each appended: the merged text holds them
  in reverse order, \<open>k5\<close> before \<open>k4\<close>, and \<^verbatim>\<open>merge\<close> reports no conflict.
\<close>

theorem updated_records_appended_reversed:
  "hasLocalForwarded (computeMergeResultByKeybinding textExt
       [binding ''k1'' ''--x'', binding ''k2'' ''-x'', binding ''k3'' ''new'']
       [binding ''k4'' ''-x'', binding ''k5'' ''-x'']
       (Some [binding ''k1'' ''--x'', binding ''k2'' ''-x'']) identityKeys)
   \<and> hasRemoteForwarded (computeMergeResultByKeybinding textExt
       [binding ''k1'' ''--x'', binding ''k2'' ''-x'', binding ''k3'' ''new'']
       [binding ''k4'' ''-x'', binding ''k5'' ''-x'']
       (Some [binding ''k1'' ''--x'', binding ''k2'' ''-x'']) identityKeys)
   \<and> mr_conflicts (computeMergeResultByKeybinding textExt
       [binding ''k1'' ''--x'', binding ''k2'' ''-x'', binding ''k3'' ''new'']
       [binding ''k4'' ''-x'', binding ''k5'' ''-x'']
       (Some [binding ''k1'' ''--x'', binding ''k2'' ''-x'']) identityKeys) = []
   \<and> commandsMergeResult textExt
       [binding ''k1'' ''--x'', binding ''k2'' ''-x'', binding ''k3'' ''new'']
       [binding ''k4'' ''-x'', binding ''k5'' ''-x'']
       (Some [binding ''k1'' ''--x'', binding ''k2'' ''-x'']) identityKeys
      = \<lparr>ms_added = [], ms_removed = [''-x''], ms_updated = [''x''], ms_conflicts = []\<rparr>
   \<and> getBang (byCommand [binding ''k4'' ''-x'', binding ''k5'' ''-x'']) ''x''
      = [binding ''k4'' ''-x'', binding ''k5'' ''-x'']
   \<and> findFirstIndex [binding ''k1'' ''--x'', binding ''k2'' ''-x'', binding ''k3'' ''new'']
        (hasCommand ''x'') = 1
   \<and> parseText (removeKeybindings textExt
        (render [binding ''k1'' ''--x'', binding ''k2'' ''-x'', binding ''k3'' ''new''])
        [CHR 0x0A] ''-x'') = [binding ''k3'' ''new'']
   \<and> findFirstIndex [binding ''k3'' ''new''] (hasCommand ''x'') = -1
   \<and> \<not> hasConflicts (merge textExt
        (render [binding ''k1'' ''--x'', binding ''k2'' ''-x'', binding ''k3'' ''new''])
        (render [binding ''k4'' ''-x'', binding ''k5'' ''-x''])
        (Some (render [binding ''k1'' ''--x'', binding ''k2'' ''-x''])) identityKeys)
   \<and> parseText (mergeContent (merge textExt
        (render [binding ''k1'' ''--x'', binding ''k2'' ''-x'', binding ''k3'' ''new''])
        (render [binding ''k4'' ''-x'', binding ''k5'' ''-x''])
        (Some (render [binding ''k1'' ''--x'', binding ''k2'' ''-x''])) identityKeys))
      = [binding ''k3'' ''new'', binding ''k5'' ''-x'', binding ''k4'' ''-x'']"
proof -
  let ?local = "[binding ''k1'' ''--x'', binding ''k2'' ''-x'', binding ''k3'' ''new'']"
  let ?remote = "[binding ''k4'' ''-x'', binding ''k5'' ''-x'']"
  let ?base = "[binding ''k1'' ''--x'', binding ''k2'' ''-x'']"
  let ?kmr = "computeMergeResultByKeybinding textExt ?local ?remote (Some ?base) identityKeys"
  let ?cmr = "commandsMergeResult textExt ?local ?remote (Some ?base) identityKeys"
  have p: "parse textExt = parseText" and e: "getEol textExt = (\<lambda>c. [CHR 0x0A])"
    and ed: "edit textExt = editText"
    by (simp_all add: textExt_def)
  have pb: "parseBase textExt (Some (render ?base)) = Some ?base"
    by (simp add: parseBase_def render_not_empty p parseText_render)
  have kmr: "?kmr = \<lparr>hasLocalForwarded = True, hasRemoteForwarded = True,
      mr_added = [Some ''k4'', Some ''k5''], mr_removed = [Some ''k1'', Some ''k2''],
      mr_updated = [], mr_conflicts = []\<rparr>"
    by (simp add: eval_defs merge_eval_defs)
  have cmr: "?cmr = \<lparr>ms_added = [], ms_removed = [''-x''], ms_updated = [''x''],
      ms_conflicts = []\<rparr>"
    by (simp add: eval_defs merge_eval_defs)
  have g: "getBang (byCommand ?remote) ''x'' = ?remote"
    by (simp add: eval_defs)
  have f1: "findFirstIndex ?local (hasCommand ''x'') = 1"
    by (simp add: hasCommand_def binding_def)
  have f2: "findFirstIndex [binding ''k3'' ''new''] (hasCommand ''x'') = -1"
    by (simp add: hasCommand_def binding_def)
  have r: "removeKeybindings textExt (render ?local) [CHR 0x0A] ''-x''
             = render [binding ''k3'' ''new'']"
    by (simp add: removeKeybindings_def removeLoop_def hasCommand_def p ed parseText_render
        editText_def editList_def deleteAt_def Let_def binding_def)
  have u: "updateKeybindings textExt (render [binding ''k3'' ''new'']) [CHR 0x0A] ''x'' ?remote
             = render [binding ''k3'' ''new'', binding ''k5'' ''-x'', binding ''k4'' ''-x'']"
    by (simp add: updateKeybindings_def removeLoop_def hasCommand_def p ed parseText_render
        editText_def editList_def Let_def binding_def)
  have a: "assemble textExt identityKeys [] (byCommand ?remote)
        \<lparr>ms_added = [], ms_removed = [''-x''], ms_updated = [''x''], ms_conflicts = []\<rparr>
        [CHR 0x0A] (render ?local)
      = (render [binding ''k3'' ''new'', binding ''k5'' ''-x'', binding ''k4'' ''-x''], [])"
    by (simp add: assemble_def stepRemoved_def r g u someKeyInConflict_def Let_def)
  have m: "merge textExt (render ?local) (render ?remote) (Some (render ?base)) identityKeys
      = \<lparr>mergeContent = render [binding ''k3'' ''new'', binding ''k5'' ''-x'', binding ''k4'' ''-x''],
         hasChanges = True, hasConflicts = False\<rparr>"
    by (simp add: merge_def Let_def p e pb parseText_render kmr cmr a)
  have pr: "parseText (removeKeybindings textExt (render ?local) [CHR 0x0A] ''-x'')
      = [binding ''k3'' ''new'']"
    by (simp only: r parseText_render)
  from kmr cmr g f1 f2 pr m show ?thesis
    by (simp add: parseText_render)
qed

end
